theory Spec2Isabelle
  imports Main "HOL-Library.Word"
begin

section \<open>JSON values, exceptions and the world the agent runs in\<close>

text \<open>
  The transfer agent reads one JSON document per line and prints one JSON object per
  line. \<open>json\<close> is what \<^verbatim>\<open>json.loads\<close> returns and \<^verbatim>\<open>json.dumps\<close> accepts; a Python
  \<^verbatim>\<open>dict\<close> is an association list read with \<open>map_of\<close>.
\<close>

datatype json =
    JNull
  | JBool bool
  | JInt int
  | JStr string
  | JArr "json list"
  | JObj "(string \<times> json) list"

type_synonym dict = "(string \<times> json) list"

type_synonym bytes = "8 word list"

text \<open>
  The exceptions the program can meet, all subclasses of Python's \<^verbatim>\<open>Exception\<close>.
  \<open>OSError\<close> stands for the failures of local file calls, \<open>StorageError\<close> for those
  of the object-storage client library.
\<close>

datatype exn =
    JSONDecodeError
  | AssertionError
  | KeyError string
  | TypeError string
  | AttributeError string
  | RuntimeError string
  | OSError string
  | StorageError string

text \<open>\<^verbatim>\<open>str(e)\<close>: the message; for a \<^verbatim>\<open>KeyError\<close> the quoted key.\<close>

fun str_exn :: "exn \<Rightarrow> string" where
  "str_exn JSONDecodeError = ''Expecting value''"
| "str_exn AssertionError = ''''"
| "str_exn (KeyError k) = [CHR 0x27] @ k @ [CHR 0x27]"
| "str_exn (TypeError m) = m"
| "str_exn (AttributeError m) = m"
| "str_exn (RuntimeError m) = m"
| "str_exn (OSError m) = m"
| "str_exn (StorageError m) = m"

text \<open>
  The world outside the process: the environment variables, what \<^verbatim>\<open>git config\<close>
  prints for a command line, the working directory, the local files (by absolute path),
  the objects of the storage backend (by URI), and \<open>faults\<close>: the outcome of each
  upcoming call that opens, reads, writes or closes a stream, in order (\<open>Some e\<close>: the
  call raises \<open>e\<close>; \<open>None\<close>, or a list that has run out: the call succeeds).
  \<open>log_failure\<close> gives, for the name of a log file, the exception that opening it for
  the logging set-up raises, if it raises one. Printing to standard output and writing
  log records are taken to succeed; what is logged is not part of the world.
\<close>

record world =
  environ :: "string \<rightharpoonup> string"
  git_stdout :: "string list \<Rightarrow> string"
  cwd :: string
  files :: "string \<rightharpoonup> bytes"
  blobs :: "string \<rightharpoonup> bytes"
  faults :: "exn option list"
  log_failure :: "string \<rightharpoonup> exn"

type_synonym events = "json list \<times> exn option \<times> world"

definition next_fault :: "world \<Rightarrow> exn option \<times> world" where
  "next_fault w = (case faults w of [] \<Rightarrow> (None, w) | f # fs \<Rightarrow> (f, w\<lparr>faults := fs\<rparr>))"

text \<open>\<^verbatim>\<open>os.path.join\<close> of two components (POSIX).\<close>

definition join :: "string \<Rightarrow> string \<Rightarrow> string" where
  "join a b =
     (if b \<noteq> [] \<and> hd b = CHR ''/'' then b
      else if a = [] \<or> last a = CHR ''/'' then a @ b
      else a @ ''/'' @ b)"

text \<open>
  \<^verbatim>\<open>Path(p).absolute()\<close> and \<^verbatim>\<open>abspath(p)\<close>: the path under the working directory.
  (The removal of \<^verbatim>\<open>.\<close> and doubled separators by both is left out.)
\<close>

definition absolute :: "world \<Rightarrow> string \<Rightarrow> string" where
  "absolute w p = join (cwd w) p"

subsection \<open>Streams\<close>

text \<open>
  A stream opened for reading is the bytes still to be read: \<^verbatim>\<open>read(n)\<close> of a buffered
  binary stream returns \<open>n\<close> bytes, fewer only at the end of the stream.
\<close>

definition stream_read :: "nat \<Rightarrow> bytes \<Rightarrow> world \<Rightarrow> (exn + bytes \<times> bytes) \<times> world" where
  "stream_read n src w =
     (case next_fault w of
        (Some e, w') \<Rightarrow> (Inl e, w')
      | (None, w') \<Rightarrow> (Inr (take n src, drop n src), w'))"

text \<open>\<^verbatim>\<open>open(path, "rb")\<close>: a missing file raises \<^verbatim>\<open>FileNotFoundError\<close>.\<close>

definition file_open_rb :: "string \<Rightarrow> world \<Rightarrow> (exn + bytes) \<times> world" where
  "file_open_rb p w =
     (case next_fault w of
        (Some e, w') \<Rightarrow> (Inl e, w')
      | (None, w') \<Rightarrow>
          (case files w' (absolute w' p) of
             None \<Rightarrow> (Inl (OSError (''[Errno 2] No such file or directory: '' @ p)), w')
           | Some bs \<Rightarrow> (Inr bs, w')))"

text \<open>\<^verbatim>\<open>open(path, "wb")\<close>: the file is created, or emptied.\<close>

definition file_open_wb :: "string \<Rightarrow> world \<Rightarrow> exn option \<times> world" where
  "file_open_wb p w =
     (case next_fault w of
        (Some e, w') \<Rightarrow> (Some e, w')
      | (None, w') \<Rightarrow> (None, w'\<lparr>files := (files w')(absolute w' p \<mapsto> [])\<rparr>))"

text \<open>\<^verbatim>\<open>Path.unlink()\<close>: a missing file raises \<^verbatim>\<open>FileNotFoundError\<close>.\<close>

definition unlink :: "string \<Rightarrow> world \<Rightarrow> exn option \<times> world" where
  "unlink p w =
     (case files w (absolute w p) of
        None \<Rightarrow> (Some (OSError (''[Errno 2] No such file or directory: '' @ p)), w)
      | Some _ \<Rightarrow> (None, w\<lparr>files := (files w)(absolute w p := None)\<rparr>))"

text \<open>
  The storage backend, an external collaborator: a store of byte strings by URI.
  \<open>blob_open_rb\<close> is \<^verbatim>\<open>Blob.from_uri(uri, client=self.client()).open("rb")\<close>, with a
  missing object reported when the stream is opened; \<open>blob_open_wb\<close> is the same call
  with \<^verbatim>\<open>"wb"\<close>, which starts a new object.
\<close>

definition blob_open_rb :: "string \<Rightarrow> world \<Rightarrow> (exn + bytes) \<times> world" where
  "blob_open_rb uri w =
     (case next_fault w of
        (Some e, w') \<Rightarrow> (Inl e, w')
      | (None, w') \<Rightarrow>
          (case blobs w' uri of
             None \<Rightarrow> (Inl (StorageError (''404 No such object: '' @ uri)), w')
           | Some bs \<Rightarrow> (Inr bs, w')))"

definition blob_open_wb :: "string \<Rightarrow> world \<Rightarrow> exn option \<times> world" where
  "blob_open_wb uri w =
     (case next_fault w of
        (Some e, w') \<Rightarrow> (Some e, w')
      | (None, w') \<Rightarrow> (None, w'\<lparr>blobs := (blobs w')(uri \<mapsto> [])\<rparr>))"

text \<open>A stream opened for writing: a local file (by path) or a backend object (by URI).\<close>

datatype sink = FileSink string | BlobSink string

definition append_to :: "(string \<rightharpoonup> bytes) \<Rightarrow> string \<Rightarrow> bytes \<Rightarrow> (string \<rightharpoonup> bytes)" where
  "append_to m k chunk = m(k \<mapsto> (case m k of None \<Rightarrow> chunk | Some old \<Rightarrow> old @ chunk))"

fun sink_write :: "sink \<Rightarrow> bytes \<Rightarrow> world \<Rightarrow> exn option \<times> world" where
  "sink_write (FileSink p) chunk w =
     (case next_fault w of
        (Some e, w') \<Rightarrow> (Some e, w')
      | (None, w') \<Rightarrow> (None, w'\<lparr>files := append_to (files w') (absolute w' p) chunk\<rparr>))"
| "sink_write (BlobSink uri) chunk w =
     (case next_fault w of
        (Some e, w') \<Rightarrow> (Some e, w')
      | (None, w') \<Rightarrow> (None, w'\<lparr>blobs := append_to (blobs w') uri chunk\<rparr>))"

text \<open>Closing a written stream flushes it, which can fail; the bytes written stay.\<close>

definition sink_close :: "sink \<Rightarrow> world \<Rightarrow> exn option \<times> world" where
  "sink_close dst w = next_fault w"

section \<open>ChunkedTransfer\<close>

definition MB :: nat where
  "MB = 1024 * 1024"

definition CHUNK_SIZE :: nat where
  "CHUNK_SIZE = 4 * MB"

definition progress :: "string \<Rightarrow> nat \<Rightarrow> nat \<Rightarrow> json" where
  "progress oid tot n =
     JObj [(''event'', JStr ''progress''), (''oid'', JStr oid),
           (''bytesSoFar'', JInt (int tot)), (''bytesSinceLast'', JInt (int n))]"

text \<open>
  \<^verbatim>\<open>transfer(oid, src, dst)\<close>, the same in both modules: the events it yields, the
  exception that ended it (if one did), and the world after it. \<open>transfer_loop\<close> is the
  \<^verbatim>\<open>for\<close> loop, with the local variable \<^verbatim>\<open>total\<close> as the argument \<open>tot\<close>; it ends at the first
  empty chunk.
\<close>

function transfer_loop :: "string \<Rightarrow> bytes \<Rightarrow> sink \<Rightarrow> nat \<Rightarrow> world \<Rightarrow> events" where
  "transfer_loop oid src dst tot w =
     (case stream_read CHUNK_SIZE src w of
        (Inl e, w1) \<Rightarrow> ([], Some e, w1)
      | (Inr (chunk, src'), w1) \<Rightarrow>
          if chunk = [] then ([], None, w1)
          else
            (case sink_write dst chunk w1 of
               (Some e, w2) \<Rightarrow> ([], Some e, w2)
             | (None, w2) \<Rightarrow>
                 (case transfer_loop oid src' dst (tot + length chunk) w2 of
                    (evs, r, w3) \<Rightarrow>
                      (progress oid (tot + length chunk) (length chunk) # evs, r, w3))))"
  by pat_completeness auto
termination
proof (relation "measure (\<lambda>(oid, src, dst, tot, w). length src)")
  show "wf (measure (\<lambda>(oid, src, dst, tot, w). length src))"
    by simp
next
  fix oid :: string and src :: bytes and dst :: sink and tot :: nat and w :: world
    and x w1 xa chunk src' xb xc w2
  assume rd: "(x, w1) = stream_read CHUNK_SIZE src w" "x = Inr xa" "(chunk, src') = xa"
    and ne: "chunk \<noteq> []"
  from rd have "chunk = take CHUNK_SIZE src" and "src' = drop CHUNK_SIZE src"
    by (auto simp: stream_read_def split: prod.splits option.splits)
  with ne have "length src' < length src"
    by (cases src) (auto simp: CHUNK_SIZE_def MB_def)
  then show "((oid, src', dst, tot + length chunk, w2), (oid, src, dst, tot, w))
      \<in> measure (\<lambda>(oid, src, dst, tot, w). length src)"
    by simp
qed

declare transfer_loop.simps [simp del]

definition transfer :: "string \<Rightarrow> bytes \<Rightarrow> sink \<Rightarrow> world \<Rightarrow> events" where
  "transfer oid src dst w = transfer_loop oid src dst 0 w"

section \<open>Requests and outbound events\<close>

text \<open>
  A line of standard input, as \<^verbatim>\<open>json.loads\<close> sees it: a document it decodes, or text
  it rejects. \<^verbatim>\<open>stdin.readline()\<close> at the end of input returns the empty string, which
  \<^verbatim>\<open>loads\<close> rejects.
\<close>

datatype line = Malformed | Decoded json

fun loads :: "line \<Rightarrow> exn + json" where
  "loads Malformed = Inl JSONDecodeError"
| "loads (Decoded j) = Inr j"

definition readline :: "line list \<Rightarrow> line \<times> line list" where
  "readline stdin = (case stdin of [] \<Rightarrow> (Malformed, []) | l # ls \<Rightarrow> (l, ls))"

text \<open>\<^verbatim>\<open>request[key]\<close> and \<^verbatim>\<open>request.pop(key)\<close> on whatever \<^verbatim>\<open>loads\<close> returned.\<close>

fun subscript :: "json \<Rightarrow> string \<Rightarrow> exn + json" where
  "subscript (JObj d) k = (case map_of d k of None \<Rightarrow> Inl (KeyError k) | Some v \<Rightarrow> Inr v)"
| "subscript (JStr s) k = Inl (TypeError ''string indices must be integers'')"
| "subscript (JArr xs) k = Inl (TypeError ''list indices must be integers or slices, not str'')"
| "subscript j k = Inl (TypeError ''object is not subscriptable'')"

fun pop :: "json \<Rightarrow> string \<Rightarrow> exn + json \<times> dict" where
  "pop (JObj d) k =
     (case map_of d k of
        None \<Rightarrow> Inl (KeyError k)
      | Some v \<Rightarrow> Inr (v, filter (\<lambda>kv. fst kv \<noteq> k) d))"
| "pop (JArr xs) k = Inl (TypeError ''str object cannot be interpreted as an integer'')"
| "pop j k = Inl (AttributeError ''object has no attribute pop'')"

definition complete_download :: "string \<Rightarrow> string \<Rightarrow> json" where
  "complete_download oid path =
     JObj [(''event'', JStr ''complete''), (''oid'', JStr oid), (''path'', JStr path)]"

definition complete_upload :: "string \<Rightarrow> json" where
  "complete_upload oid = JObj [(''event'', JStr ''complete''), (''oid'', JStr oid)]"

text \<open>The event of the \<^verbatim>\<open>except Exception as e\<close> branch of the request loop.\<close>

definition complete_error :: "json \<Rightarrow> exn \<Rightarrow> json" where
  "complete_error oid e =
     JObj [(''event'', JStr ''complete''), (''oid'', oid),
           (''error'', JObj [(''code'', JInt 2), (''message'', JStr (str_exn e))])]"

definition is_complete :: "json \<Rightarrow> bool" where
  "is_complete j =
     (case j of JObj d \<Rightarrow> map_of d ''event'' = Some (JStr ''complete'') | _ \<Rightarrow> False)"

definition is_progress :: "json \<Rightarrow> bool" where
  "is_progress j =
     (case j of JObj d \<Rightarrow> map_of d ''event'' = Some (JStr ''progress'') | _ \<Rightarrow> False)"

definition field :: "json \<Rightarrow> string \<Rightarrow> json option" where
  "field j k = (case j of JObj d \<Rightarrow> map_of d k | _ \<Rightarrow> None)"

section \<open>Scoped streams\<close>

text \<open>
  \<^verbatim>\<open>with <stream opened for writing> as dst: body\<close>: the stream is closed when the body
  ends, also by an exception; an exception of the close replaces the body's.
  Closing a stream opened for reading changes nothing.
\<close>

definition with_sink :: "sink \<Rightarrow> (world \<Rightarrow> events) \<Rightarrow> world \<Rightarrow> events" where
  "with_sink dst body w =
     (case body w of
        (evs, r, w1) \<Rightarrow>
          (case sink_close dst w1 of
             (Some e, w2) \<Rightarrow> (evs, Some e, w2)
           | (None, w2) \<Rightarrow> (evs, r, w2)))"

text \<open>
  \<^verbatim>\<open>open_auto_cleanup(file_path)\<close> of \<^verbatim>\<open>git_lfs_gcs.py\<close>, around the body of the
  \<^verbatim>\<open>with\<close> statement that uses it: any exception of opening the file, of the body or of
  closing the file runs \<^verbatim>\<open>file_path.unlink()\<close> and is raised again (an exception of
  \<^verbatim>\<open>unlink\<close> itself takes its place).
\<close>

definition open_auto_cleanup :: "string \<Rightarrow> (sink \<Rightarrow> world \<Rightarrow> events) \<Rightarrow> world \<Rightarrow> events" where
  "open_auto_cleanup file_path body w =
     (case (case file_open_wb file_path w of
              (Some e, w1) \<Rightarrow> ([], Some e, w1)
            | (None, w1) \<Rightarrow> with_sink (FileSink file_path) (body (FileSink file_path)) w1) of
        (evs, None, w2) \<Rightarrow> (evs, None, w2)
      | (evs, Some e, w2) \<Rightarrow>
          (case unlink file_path w2 of
             (Some e', w3) \<Rightarrow> (evs, Some e', w3)
           | (None, w3) \<Rightarrow> (evs, Some e, w3)))"

section \<open>The transport of \<^verbatim>\<open>git_lfs_gcs.py\<close>\<close>

record GCSTransport =
  url :: string

text \<open>\<^verbatim>\<open>bytes.strip()\<close>: ASCII white space off both ends.\<close>

definition isspace :: "char \<Rightarrow> bool" where
  "isspace c = (c \<in> set [CHR '' '', CHR 0x09, CHR 0x0A, CHR 0x0B, CHR 0x0C, CHR 0x0D])"

definition strip :: "string \<Rightarrow> string" where
  "strip s = rev (dropWhile isspace (rev (dropWhile isspace s)))"

text \<open>\<^verbatim>\<open>config_option(option)\<close>, the same in both modules.\<close>

definition config_option :: "string \<Rightarrow> world \<Rightarrow> string option" where
  "config_option opt w =
     (let v1 = strip (git_stdout w [''git'', ''config'', opt]) in
      if v1 \<noteq> [] then Some v1
      else
        let v2 = strip (git_stdout w [''git'', ''config'', ''--file'', ''.lfsconfig'', opt]) in
        if v2 \<noteq> [] then Some v2 else None)"

definition create :: "world \<Rightarrow> exn + GCSTransport" where
  "create w =
     (case config_option ''lfs.url'' w of
        None \<Rightarrow> Inl (RuntimeError ''LFS url must be set'')
      | Some u \<Rightarrow> Inr \<lparr>url = u\<rparr>)"

text \<open>
  \<^verbatim>\<open>download(self, oid, size, action=None)\<close>. \<^verbatim>\<open>join\<close> raises \<^verbatim>\<open>TypeError\<close> for an
  \<^verbatim>\<open>oid\<close> that is no string. The generator's body runs inside the \<^verbatim>\<open>try\<close> of the
  request loop, which consumes it to its end.
\<close>

definition download :: "GCSTransport \<Rightarrow> json \<Rightarrow> json \<Rightarrow> json \<Rightarrow> world \<Rightarrow> events" where
  "download self oid sz action w =
     (case oid of
        JStr oid_s \<Rightarrow>
          (let file_uri = join (url self) oid_s;
               download_path = absolute w (''lfs-download-'' @ oid_s @ ''.tmp'')
           in case blob_open_rb file_uri w of
                (Inl e, w1) \<Rightarrow> ([], Some e, w1)
              | (Inr src, w1) \<Rightarrow>
                  (case open_auto_cleanup download_path (transfer oid_s src) w1 of
                     (evs, Some e, w2) \<Rightarrow> (evs, Some e, w2)
                   | (evs, None, w2) \<Rightarrow>
                       (evs @ [complete_download oid_s download_path], None, w2)))
      | _ \<Rightarrow> ([], Some (TypeError ''expected str, bytes or os.PathLike object''), w))"

text \<open>
  \<^verbatim>\<open>open(path, "rb")\<close> for the \<^verbatim>\<open>path\<close> of a request. A path that is no string is
  refused here (Python would take an integer for a file descriptor; that is left out).
\<close>

definition open_rb :: "json \<Rightarrow> world \<Rightarrow> (exn + bytes) \<times> world" where
  "open_rb path w =
     (case path of
        JStr p \<Rightarrow> file_open_rb p w
      | _ \<Rightarrow> (Inl (TypeError ''expected str, bytes or os.PathLike object''), w))"

text \<open>\<^verbatim>\<open>upload(self, oid, path, size, action=None)\<close>.\<close>

definition upload :: "GCSTransport \<Rightarrow> json \<Rightarrow> json \<Rightarrow> json \<Rightarrow> json \<Rightarrow> world \<Rightarrow> events" where
  "upload self oid path sz action w =
     (case oid of
        JStr oid_s \<Rightarrow>
          (let file_uri = join (url self) oid_s
           in case open_rb path w of
                (Inl e, w1) \<Rightarrow> ([], Some e, w1)
              | (Inr src, w1) \<Rightarrow>
                  (case (case blob_open_wb file_uri w1 of
                           (Some e, w2) \<Rightarrow> ([], Some e, w2)
                         | (None, w2) \<Rightarrow>
                             with_sink (BlobSink file_uri)
                               (transfer oid_s src (BlobSink file_uri)) w2) of
                     (evs, Some e, w3) \<Rightarrow> (evs, Some e, w3)
                   | (evs, None, w3) \<Rightarrow> (evs @ [complete_upload oid_s], None, w3)))
      | _ \<Rightarrow> ([], Some (TypeError ''expected str, bytes or os.PathLike object''), w))"

section \<open>Dispatch by name and the request loop of \<^verbatim>\<open>git_lfs_gcs.py\<close>\<close>

text \<open>
  Binding the keyword arguments \<^verbatim>\<open>**request\<close> to the parameters that follow \<^verbatim>\<open>oid\<close>:
  Python raises \<^verbatim>\<open>TypeError\<close> for a keyword that names no parameter, then for a
  parameter without default that got no value. (The message texts are shortened.)
\<close>

definition bind_error :: "string \<Rightarrow> string list \<Rightarrow> string list \<Rightarrow> dict \<Rightarrow> exn option" where
  "bind_error fname required optional request =
     (case filter (\<lambda>k. k \<notin> set (required @ optional)) (map fst request) of
        k # _ \<Rightarrow> Some (TypeError (fname @ ''() got an unexpected keyword argument '' @ k))
      | [] \<Rightarrow>
          (case filter (\<lambda>k. k \<notin> set (map fst request)) required of
             k # _ \<Rightarrow> Some (TypeError (fname @ ''() missing required argument '' @ k))
           | [] \<Rightarrow> None))"

definition arg :: "dict \<Rightarrow> string \<Rightarrow> json" where
  "arg request k = (case map_of request k of None \<Rightarrow> JNull | Some v \<Rightarrow> v)"

text \<open>\<^verbatim>\<open>client.download(oid=oid, **request)\<close> and \<^verbatim>\<open>client.upload(oid=oid, **request)\<close>.\<close>

definition call_download :: "GCSTransport \<Rightarrow> json \<Rightarrow> dict \<Rightarrow> world \<Rightarrow> events" where
  "call_download client oid request w =
     (case bind_error ''download'' [''size''] [''action''] request of
        Some e \<Rightarrow> ([], Some e, w)
      | None \<Rightarrow> download client oid (arg request ''size'') (arg request ''action'') w)"

definition call_upload :: "GCSTransport \<Rightarrow> json \<Rightarrow> dict \<Rightarrow> world \<Rightarrow> events" where
  "call_upload client oid request w =
     (case bind_error ''upload'' [''path'', ''size''] [''action''] request of
        Some e \<Rightarrow> ([], Some e, w)
      | None \<Rightarrow>
          upload client oid (arg request ''path'') (arg request ''size'')
            (arg request ''action'') w)"

text \<open>
  The names other than \<^verbatim>\<open>download\<close> and \<^verbatim>\<open>upload\<close> that \<^verbatim>\<open>getattr\<close> finds on a
  \<^verbatim>\<open>GCSTransport\<close>: the members the class defines and those every Python object has.
  None of them can be called with the keyword argument \<^verbatim>\<open>oid\<close>: the call raises
  \<^verbatim>\<open>TypeError\<close>.
\<close>

definition other_attributes :: "string list" where
  "other_attributes =
     [''create'', ''client'', ''url'', ''__init__'', ''__class__'', ''__dict__'', ''__doc__'',
      ''__module__'', ''__weakref__'', ''__delattr__'', ''__dir__'', ''__eq__'', ''__format__'',
      ''__ge__'', ''__getattribute__'', ''__getstate__'', ''__gt__'', ''__hash__'',
      ''__init_subclass__'', ''__le__'', ''__lt__'', ''__ne__'', ''__new__'', ''__reduce__'',
      ''__reduce_ex__'', ''__repr__'', ''__setattr__'', ''__sizeof__'', ''__str__'',
      ''__subclasshook__'']"

text \<open>\<^verbatim>\<open>getattr(client, event)(oid=oid, **request)\<close>, consumed by the \<^verbatim>\<open>for\<close> loop.\<close>

definition getattr_call :: "GCSTransport \<Rightarrow> json \<Rightarrow> json \<Rightarrow> dict \<Rightarrow> world \<Rightarrow> events" where
  "getattr_call client event oid request w =
     (case event of
        JStr name \<Rightarrow>
          if name = ''download'' then call_download client oid request w
          else if name = ''upload'' then call_upload client oid request w
          else if name \<in> set other_attributes
          then ([], Some (TypeError (name @ '' cannot be called with keyword argument oid'')), w)
          else ([], Some (AttributeError (''GCSTransport object has no attribute '' @ name)), w)
      | _ \<Rightarrow> ([], Some (TypeError ''attribute name must be string''), w))"

text \<open>
  The \<^verbatim>\<open>try\<close> statement of the request loop: every response is printed as it is
  yielded; an exception prints one more event. The result is what was printed, and the
  world.
\<close>

definition handle_request :: "GCSTransport \<Rightarrow> json \<Rightarrow> json \<Rightarrow> dict \<Rightarrow> world \<Rightarrow> json list \<times> world" where
  "handle_request client event oid request w =
     (case getattr_call client event oid request w of
        (evs, None, w') \<Rightarrow> (evs, w')
      | (evs, Some e, w') \<Rightarrow> (evs @ [complete_error oid e], w'))"

text \<open>
  The \<^verbatim>\<open>for request in (loads(line) for line in stdin)\<close> loop of \<^verbatim>\<open>agent\<close>: what it
  prints, the exception that left it (\<open>None\<close>: it ended by \<^verbatim>\<open>break\<close> or at the end of
  input), and the world.
\<close>

fun agent_loop :: "GCSTransport \<Rightarrow> line list \<Rightarrow> world \<Rightarrow> events" where
  "agent_loop client [] w = ([], None, w)"
| "agent_loop client (l # ls) w =
     (case loads l of
        Inl e \<Rightarrow> ([], Some e, w)
      | Inr request \<Rightarrow>
          (case pop request ''event'' of
             Inl e \<Rightarrow> ([], Some e, w)
           | Inr (event, request1) \<Rightarrow>
               if event = JStr ''terminate'' then ([], None, w)
               else
                 (case pop (JObj request1) ''oid'' of
                    Inl e \<Rightarrow> ([], Some e, w)
                  | Inr (oid, request2) \<Rightarrow>
                      (case handle_request client event oid request2 w of
                         (out, w1) \<Rightarrow>
                           (case agent_loop client ls w1 of
                              (out', r, w2) \<Rightarrow> (out @ out', r, w2))))))"

text \<open>
  \<^verbatim>\<open>basicConfig(filename=..., level=DEBUG)\<close> opens the log file at once, which can raise:
  the result is that exception, or \<open>None\<close>. What is written to the log is not
  modelled.
\<close>

definition basicConfig :: "string \<Rightarrow> world \<Rightarrow> exn option" where
  "basicConfig filename w = log_failure w filename"

text \<open>
  The first statement of \<^verbatim>\<open>agent\<close>: when \<^verbatim>\<open>GIT_LFS_GCS_LOG\<close> is set, the log file is
  the one that \<^verbatim>\<open>environ["LFS_GCS_LOG"]\<close> names, a \<^verbatim>\<open>KeyError\<close> when that is not set.
\<close>

definition logging_setup :: "world \<Rightarrow> exn option" where
  "logging_setup w =
     (if environ w ''GIT_LFS_GCS_LOG'' = None then None
      else
        (case environ w ''LFS_GCS_LOG'' of
           None \<Rightarrow> Some (KeyError ''LFS_GCS_LOG'')
         | Some filename \<Rightarrow> basicConfig filename w))"

text \<open>
  \<^verbatim>\<open>agent()\<close>: the logging set-up, the handshake, the configuration, the
  acknowledgement \<^verbatim>\<open>{}\<close> and the loop.
\<close>

definition agent :: "line list \<Rightarrow> world \<Rightarrow> events" where
  "agent stdin w =
     (case logging_setup w of
        Some e \<Rightarrow> ([], Some e, w)
      | None \<Rightarrow>
        (case readline stdin of
           (first_line, rest) \<Rightarrow>
             (case loads first_line of
                Inl e \<Rightarrow> ([], Some e, w)
              | Inr first_request \<Rightarrow>
                  (case subscript first_request ''event'' of
                     Inl e \<Rightarrow> ([], Some e, w)
                   | Inr event \<Rightarrow>
                       if event \<noteq> JStr ''init'' then ([], Some AssertionError, w)
                       else
                         (case create w of
                            Inl e \<Rightarrow> ([], Some e, w)
                          | Inr client \<Rightarrow>
                              (case agent_loop client rest w of
                                 (out, r, w') \<Rightarrow> (JObj [] # out, r, w')))))))"

text \<open>
  \<^verbatim>\<open>exit(main())\<close>: \<^verbatim>\<open>main\<close> returns \<^verbatim>\<open>None\<close>, so the status is 0; an exception that
  leaves \<^verbatim>\<open>main\<close> ends the process with status 1.
\<close>

definition exit_status :: "events \<Rightarrow> nat" where
  "exit_status run = (case fst (snd run) of None \<Rightarrow> 0 | Some e \<Rightarrow> 1)"

section \<open>The module \<^verbatim>\<open>lfs_gcs.py\<close>\<close>

text \<open>
  \<^verbatim>\<open>lfs_gcs.py\<close> has its own \<^verbatim>\<open>GCSTransport\<close> and its own loop, \<^verbatim>\<open>main\<close>; its
  \<^verbatim>\<open>transfer\<close>, \<^verbatim>\<open>respond\<close> and \<^verbatim>\<open>config_option\<close> are those above.
\<close>

record lfs_gcs_GCSTransport =
  lfs_gcs_url :: string
  lfs_gcs_project :: "string option"

definition lfs_gcs_create :: "world \<Rightarrow> exn + lfs_gcs_GCSTransport" where
  "lfs_gcs_create w =
     (let u = config_option ''lfs.url'' w;
          project = config_option ''lfs-gcs.project'' w
      in case u of
           None \<Rightarrow> Inl (RuntimeError ''LFS url must be set'')
         | Some u' \<Rightarrow> Inr \<lparr>lfs_gcs_url = u', lfs_gcs_project = project\<rparr>)"

text \<open>
  \<^verbatim>\<open>download(self, oid, **_)\<close>: the destination is opened with a plain
  \<^verbatim>\<open>open(download_path, "wb")\<close>.
\<close>

definition lfs_gcs_download :: "lfs_gcs_GCSTransport \<Rightarrow> json \<Rightarrow> dict \<Rightarrow> world \<Rightarrow> events" where
  "lfs_gcs_download self oid kwargs w =
     (case oid of
        JStr oid_s \<Rightarrow>
          (let file_uri = join (lfs_gcs_url self) oid_s;
               download_path = absolute w (''lfs-download-'' @ oid_s @ ''.tmp'')
           in case blob_open_rb file_uri w of
                (Inl e, w1) \<Rightarrow> ([], Some e, w1)
              | (Inr src, w1) \<Rightarrow>
                  (case (case file_open_wb download_path w1 of
                           (Some e, w2) \<Rightarrow> ([], Some e, w2)
                         | (None, w2) \<Rightarrow>
                             with_sink (FileSink download_path)
                               (transfer oid_s src (FileSink download_path)) w2) of
                     (evs, Some e, w3) \<Rightarrow> (evs, Some e, w3)
                   | (evs, None, w3) \<Rightarrow>
                       (evs @ [complete_download oid_s download_path], None, w3)))
      | _ \<Rightarrow> ([], Some (TypeError ''expected str, bytes or os.PathLike object''), w))"

text \<open>\<^verbatim>\<open>upload(self, oid, path, size, action)\<close>: every parameter is required.\<close>

definition lfs_gcs_upload ::
  "lfs_gcs_GCSTransport \<Rightarrow> json \<Rightarrow> json \<Rightarrow> json \<Rightarrow> json \<Rightarrow> world \<Rightarrow> events" where
  "lfs_gcs_upload self oid path sz action w =
     (case oid of
        JStr oid_s \<Rightarrow>
          (let file_uri = join (lfs_gcs_url self) oid_s
           in case open_rb path w of
                (Inl e, w1) \<Rightarrow> ([], Some e, w1)
              | (Inr src, w1) \<Rightarrow>
                  (case (case blob_open_wb file_uri w1 of
                           (Some e, w2) \<Rightarrow> ([], Some e, w2)
                         | (None, w2) \<Rightarrow>
                             with_sink (BlobSink file_uri)
                               (transfer oid_s src (BlobSink file_uri)) w2) of
                     (evs, Some e, w3) \<Rightarrow> (evs, Some e, w3)
                   | (evs, None, w3) \<Rightarrow> (evs @ [complete_upload oid_s], None, w3)))
      | _ \<Rightarrow> ([], Some (TypeError ''expected str, bytes or os.PathLike object''), w))"

definition lfs_gcs_call_upload :: "lfs_gcs_GCSTransport \<Rightarrow> json \<Rightarrow> dict \<Rightarrow> world \<Rightarrow> events" where
  "lfs_gcs_call_upload client oid request w =
     (case bind_error ''upload'' [''path'', ''size'', ''action''] [] request of
        Some e \<Rightarrow> ([], Some e, w)
      | None \<Rightarrow>
          lfs_gcs_upload client oid (arg request ''path'') (arg request ''size'')
            (arg request ''action'') w)"

text \<open>
  \<^verbatim>\<open>client.download(oid=oid, **request)\<close>: \<^verbatim>\<open>**_\<close> takes every keyword but
  \<^verbatim>\<open>self\<close>, which the bound method has already.
\<close>

definition lfs_gcs_call_download :: "lfs_gcs_GCSTransport \<Rightarrow> json \<Rightarrow> dict \<Rightarrow> world \<Rightarrow> events" where
  "lfs_gcs_call_download client oid request w =
     (if ''self'' \<in> set (map fst request)
      then ([], Some (TypeError ''download() got multiple values for argument self''), w)
      else lfs_gcs_download client oid request w)"

definition lfs_gcs_getattr_call ::
  "lfs_gcs_GCSTransport \<Rightarrow> json \<Rightarrow> json \<Rightarrow> dict \<Rightarrow> world \<Rightarrow> events" where
  "lfs_gcs_getattr_call client event oid request w =
     (case event of
        JStr name \<Rightarrow>
          if name = ''download'' then lfs_gcs_call_download client oid request w
          else if name = ''upload'' then lfs_gcs_call_upload client oid request w
          else if name \<in> set (''project'' # other_attributes)
          then ([], Some (TypeError (name @ '' cannot be called with keyword argument oid'')), w)
          else ([], Some (AttributeError (''GCSTransport object has no attribute '' @ name)), w)
      | _ \<Rightarrow> ([], Some (TypeError ''attribute name must be string''), w))"

definition lfs_gcs_handle_request ::
  "lfs_gcs_GCSTransport \<Rightarrow> json \<Rightarrow> json \<Rightarrow> dict \<Rightarrow> world \<Rightarrow> json list \<times> world" where
  "lfs_gcs_handle_request client event oid request w =
     (case lfs_gcs_getattr_call client event oid request w of
        (evs, None, w') \<Rightarrow> (evs, w')
      | (evs, Some e, w') \<Rightarrow> (evs @ [complete_error oid e], w'))"

text \<open>The \<^verbatim>\<open>for line in stdin\<close> loop of \<^verbatim>\<open>main\<close>; \<^verbatim>\<open>terminate\<close> returns from it.\<close>

fun lfs_gcs_main_loop :: "lfs_gcs_GCSTransport \<Rightarrow> line list \<Rightarrow> world \<Rightarrow> events" where
  "lfs_gcs_main_loop client [] w = ([], None, w)"
| "lfs_gcs_main_loop client (l # ls) w =
     (case loads l of
        Inl e \<Rightarrow> ([], Some e, w)
      | Inr request \<Rightarrow>
          (case pop request ''event'' of
             Inl e \<Rightarrow> ([], Some e, w)
           | Inr (event, request1) \<Rightarrow>
               if event = JStr ''terminate'' then ([], None, w)
               else
                 (case pop (JObj request1) ''oid'' of
                    Inl e \<Rightarrow> ([], Some e, w)
                  | Inr (oid, request2) \<Rightarrow>
                      (case lfs_gcs_handle_request client event oid request2 w of
                         (out, w1) \<Rightarrow>
                           (case lfs_gcs_main_loop client ls w1 of
                              (out', r, w2) \<Rightarrow> (out @ out', r, w2))))))"

text \<open>
  The first statement of \<^verbatim>\<open>main\<close>: when \<^verbatim>\<open>LFS_GCS_LOG\<close> is set, the log file it
  names is opened.
\<close>

definition lfs_gcs_logging_setup :: "world \<Rightarrow> exn option" where
  "lfs_gcs_logging_setup w =
     (case environ w ''LFS_GCS_LOG'' of
        None \<Rightarrow> None
      | Some filename \<Rightarrow> basicConfig filename w)"

text \<open>\<^verbatim>\<open>main()\<close> of \<^verbatim>\<open>lfs_gcs.py\<close>; \<^verbatim>\<open>print({}, flush=True)\<close> prints \<^verbatim>\<open>{}\<close> too.\<close>

definition lfs_gcs_main :: "line list \<Rightarrow> world \<Rightarrow> events" where
  "lfs_gcs_main stdin w =
     (case lfs_gcs_logging_setup w of
        Some e \<Rightarrow> ([], Some e, w)
      | None \<Rightarrow>
        (case readline stdin of
           (first_line, rest) \<Rightarrow>
             (case loads first_line of
                Inl e \<Rightarrow> ([], Some e, w)
              | Inr first_message \<Rightarrow>
                  (case subscript first_message ''event'' of
                     Inl e \<Rightarrow> ([], Some e, w)
                   | Inr event \<Rightarrow>
                       if event \<noteq> JStr ''init'' then ([], Some AssertionError, w)
                       else
                         (case lfs_gcs_create w of
                            Inl e \<Rightarrow> ([], Some e, w)
                          | Inr client \<Rightarrow>
                              (case lfs_gcs_main_loop client rest w of
                                 (out, r, w') \<Rightarrow> (JObj [] # out, r, w')))))))"

section \<open>Notions used to state the properties\<close>

text \<open>
  The shape of what an operation yields: after a normal end, progress events and then
  one \<^verbatim>\<open>complete\<close> event without \<^verbatim>\<open>error\<close>; at an exception, progress events only.
\<close>

definition run_shape :: "events \<Rightarrow> bool" where
  "run_shape run =
     (case run of
        (evs, None, w) \<Rightarrow>
          evs \<noteq> [] \<and> list_all is_progress (butlast evs) \<and> is_complete (last evs)
          \<and> field (last evs) ''error'' = None
      | (evs, Some e, w) \<Rightarrow> list_all is_progress evs)"

text \<open>The fields of a request that are left after \<^verbatim>\<open>event\<close> and \<^verbatim>\<open>oid\<close> are popped.\<close>

definition leftover :: "dict \<Rightarrow> dict" where
  "leftover d = filter (\<lambda>kv. fst kv \<noteq> ''oid'') (filter (\<lambda>kv. fst kv \<noteq> ''event'') d)"

text \<open>What \<^verbatim>\<open>open(p, "rb").read()\<close> would return (\<open>None\<close>: there is no such file).\<close>

definition file_contents :: "world \<Rightarrow> string \<Rightarrow> bytes option" where
  "file_contents w p = files w (absolute w p)"

text \<open>What has been written to a stream opened for writing.\<close>

definition sink_contents :: "sink \<Rightarrow> world \<Rightarrow> bytes option" where
  "sink_contents dst w =
     (case dst of FileSink p \<Rightarrow> files w (absolute w p) | BlobSink uri \<Rightarrow> blobs w uri)"

text \<open>
  A handshake that succeeds, for \<^verbatim>\<open>agent\<close> and for \<^verbatim>\<open>main\<close> of \<^verbatim>\<open>lfs_gcs.py\<close>: the
  module's own logging set-up raises nothing, the first line decodes to an object whose
  \<^verbatim>\<open>event\<close> is \<^verbatim>\<open>"init"\<close>, and \<^verbatim>\<open>lfs.url\<close> is configured.
\<close>

definition handshake_ok :: "line \<Rightarrow> world \<Rightarrow> bool" where
  "handshake_ok first w =
     (logging_setup w = None
      \<and> (case loads first of Inl e \<Rightarrow> False
          | Inr j \<Rightarrow> subscript j ''event'' = Inr (JStr ''init''))
      \<and> config_option ''lfs.url'' w \<noteq> None)"

definition lfs_gcs_handshake_ok :: "line \<Rightarrow> world \<Rightarrow> bool" where
  "lfs_gcs_handshake_ok first w =
     (lfs_gcs_logging_setup w = None
      \<and> (case loads first of Inl e \<Rightarrow> False
          | Inr j \<Rightarrow> subscript j ''event'' = Inr (JStr ''init''))
      \<and> config_option ''lfs.url'' w \<noteq> None)"

text \<open>
  A request that the loop serves and then goes on: a decoded object with an
  \<^verbatim>\<open>event\<close> other than \<^verbatim>\<open>terminate\<close> and with an \<^verbatim>\<open>oid\<close>. Whatever the operation
  does, its exception is caught and reported, so the loop reads the next line.
\<close>

definition served_request :: "line \<Rightarrow> bool" where
  "served_request l =
     (case l of
        Decoded (JObj d) \<Rightarrow>
          (case map_of d ''event'' of
             None \<Rightarrow> False
           | Some event \<Rightarrow> event \<noteq> JStr ''terminate'' \<and> map_of d ''oid'' \<noteq> None)
      | _ \<Rightarrow> False)"

text \<open>The number of chunks of \<open>n\<close> bytes: \<open>n\<close> over \<open>CHUNK_SIZE\<close>, rounded up.\<close>

definition chunks :: "nat \<Rightarrow> nat" where
  "chunks n = (n + CHUNK_SIZE - 1) div CHUNK_SIZE"

subsection \<open>A small world for concrete runs\<close>

text \<open>
  A repository at \<^verbatim>\<open>/repo\<close> configured with the URL \<^verbatim>\<open>gs://bucket/lfs\<close>, a backend
  holding the object \<^verbatim>\<open>abc\<close> with the bytes \<^verbatim>\<open>xyz\<close>, a local file \<^verbatim>\<open>a.bin\<close>, and no
  failing call.
\<close>

definition example_world :: world where
  "example_world =
     \<lparr>environ = Map.empty,
      git_stdout = (\<lambda>cmd. if cmd = [''git'', ''config'', ''lfs.url'']
                          then ''gs://bucket/lfs'' @ [CHR 0x0A] else []),
      cwd = ''/repo'',
      files = [''/repo/a.bin'' \<mapsto> [1, 2, 3]],
      blobs = [''gs://bucket/lfs/abc'' \<mapsto> [120, 121, 122]],
      faults = [],
      log_failure = Map.empty\<rparr>"

definition example_client :: GCSTransport where
  "example_client = \<lparr>url = ''gs://bucket/lfs''\<rparr>"

definition example_lfs_gcs_client :: lfs_gcs_GCSTransport where
  "example_lfs_gcs_client = \<lparr>lfs_gcs_url = ''gs://bucket/lfs'', lfs_gcs_project = None\<rparr>"

definition init_line :: line where
  "init_line = Decoded (JObj [(''event'', JStr ''init''), (''operation'', JStr ''download'')])"

definition download_abc :: dict where
  "download_abc = [(''event'', JStr ''download''), (''oid'', JStr ''abc''), (''size'', JInt 3)]"

definition terminate_request :: json where
  "terminate_request = JObj [(''event'', JStr ''terminate'')]"

text \<open>An upload of a file that is not there, a request without \<^verbatim>\<open>oid\<close>, one with an
  event the transport does not know, and a world where no URL is configured.\<close>

definition upload_missing :: dict where
  "upload_missing =
     [(''event'', JStr ''upload''), (''oid'', JStr ''abc''), (''path'', JStr ''missing.bin''),
      (''size'', JInt 3), (''action'', JNull)]"

definition download_no_oid :: dict where
  "download_no_oid = [(''event'', JStr ''download''), (''size'', JInt 3)]"

definition verify_abc :: dict where
  "verify_abc = [(''event'', JStr ''verify''), (''oid'', JStr ''abc''), (''size'', JInt 3)]"

text \<open>
  Requests that differ only in leftover fields: a download with other values of
  \<^verbatim>\<open>size\<close> and \<^verbatim>\<open>action\<close>, with a field \<^verbatim>\<open>extra\<close>, with a field \<^verbatim>\<open>self\<close>; an
  upload of the file \<^verbatim>\<open>a.bin\<close> of the example world, the same with other values of
  \<^verbatim>\<open>size\<close> and \<^verbatim>\<open>action\<close>, and with a field \<^verbatim>\<open>extra\<close>.
\<close>

definition download_abc_other :: dict where
  "download_abc_other =
     [(''event'', JStr ''download''), (''oid'', JStr ''abc''), (''size'', JInt 4),
      (''action'', JObj [(''href'', JStr ''gs://elsewhere'')])]"

definition download_abc_extra :: dict where
  "download_abc_extra =
     [(''event'', JStr ''download''), (''oid'', JStr ''abc''), (''size'', JInt 3),
      (''extra'', JInt 1)]"

definition download_abc_self :: dict where
  "download_abc_self =
     [(''event'', JStr ''download''), (''oid'', JStr ''abc''), (''size'', JInt 3),
      (''self'', JInt 1)]"

definition upload_abin :: dict where
  "upload_abin =
     [(''event'', JStr ''upload''), (''oid'', JStr ''abc''), (''path'', JStr ''a.bin''),
      (''size'', JInt 3), (''action'', JNull)]"

definition upload_abin_other :: dict where
  "upload_abin_other =
     [(''event'', JStr ''upload''), (''oid'', JStr ''abc''), (''path'', JStr ''a.bin''),
      (''size'', JInt 4), (''action'', JObj [(''href'', JStr ''gs://elsewhere'')])]"

definition upload_abin_extra :: dict where
  "upload_abin_extra =
     [(''event'', JStr ''upload''), (''oid'', JStr ''abc''), (''path'', JStr ''a.bin''),
      (''size'', JInt 3), (''action'', JNull), (''extra'', JInt 1)]"

definition unconfigured_world :: world where
  "unconfigured_world = example_world\<lparr>git_stdout := (\<lambda>cmd. [CHR 0x0A])\<rparr>"

text \<open>
  The world of the examples where the fifth stream call fails: for a download, after
  the backend stream and the destination file are opened and one chunk is read and
  written, the next read raises.
\<close>

definition failing_world :: world where
  "failing_world =
     example_world\<lparr>faults := [None, None, None, None, Some (StorageError ''connection reset'')]\<rparr>"

section \<open>Events of one operation\<close>

lemma is_progress_progress [simp]: "is_progress (progress oid t n)"
  by (simp add: is_progress_def progress_def)

lemma progress_not_complete: "is_progress j \<Longrightarrow> \<not> is_complete j"
  by (auto simp: is_progress_def is_complete_def split: json.splits)

lemma is_complete_simps [simp]:
  "is_complete (complete_download oid p)" "is_complete (complete_upload oid)"
  "is_complete (complete_error o' e)"
  by (simp_all add: is_complete_def complete_download_def complete_upload_def complete_error_def)

lemma field_error_simps [simp]:
  "field (complete_download oid p) ''error'' = None"
  "field (complete_upload oid) ''error'' = None"
  "field (complete_error o' e) ''error'' =
     Some (JObj [(''code'', JInt 2), (''message'', JStr (str_exn e))])"
  by (simp_all add: field_def complete_download_def complete_upload_def complete_error_def)

lemma transfer_loop_progress:
  "transfer_loop oid src dst tot w = (evs, r, w') \<Longrightarrow> list_all is_progress evs"
proof (induction oid src dst tot w arbitrary: evs r w' rule: transfer_loop.induct)
  case (1 oid src dst tot w)
  show ?case
    using "1.prems" "1.IH"
    apply (subst (asm) transfer_loop.simps)
    apply (auto split: prod.splits sum.splits if_splits option.splits)
    done
qed

lemma transfer_progress:
  "transfer oid src dst w = (evs, r, w') \<Longrightarrow> list_all is_progress evs"
  unfolding transfer_def by (rule transfer_loop_progress)

lemma with_sink_progress:
  assumes "\<And>evs r w'. body w = (evs, r, w') \<Longrightarrow> list_all is_progress evs"
    and "with_sink dst body w = (evs, r, w')"
  shows "list_all is_progress evs"
  using assms by (auto simp: with_sink_def split: prod.splits option.splits)

lemma with_sink_transfer_progress:
  "with_sink dst (transfer oid src dst') w = (evs, r, w') \<Longrightarrow> list_all is_progress evs"
  by (erule with_sink_progress [rotated]) (rule transfer_progress)

lemma open_auto_cleanup_progress:
  "open_auto_cleanup p (transfer oid src) w = (evs, r, w') \<Longrightarrow> list_all is_progress evs"
  by (auto simp: open_auto_cleanup_def split: prod.splits option.splits
      dest: with_sink_transfer_progress)

lemma run_shape_download: "run_shape (download client oid sz a w)"
  by (auto simp: run_shape_def download_def Let_def butlast_append
      split: json.splits prod.splits sum.splits option.splits
      dest: open_auto_cleanup_progress)

lemma run_shape_upload: "run_shape (upload client oid path sz a w)"
  by (auto simp: run_shape_def upload_def Let_def
      split: json.splits prod.splits sum.splits option.splits
      dest: with_sink_transfer_progress)

lemma run_shape_lfs_gcs_download: "run_shape (lfs_gcs_download client oid kw w)"
  by (auto simp: run_shape_def lfs_gcs_download_def Let_def
      split: json.splits prod.splits sum.splits option.splits
      dest: with_sink_transfer_progress)

lemma run_shape_lfs_gcs_upload: "run_shape (lfs_gcs_upload client oid path sz a w)"
  by (auto simp: run_shape_def lfs_gcs_upload_def Let_def
      split: json.splits prod.splits sum.splits option.splits
      dest: with_sink_transfer_progress)

lemma run_shape_failure [simp]: "run_shape ([], Some e, w)"
  by (simp add: run_shape_def)

lemma run_shape_getattr_call: "run_shape (getattr_call client event oid request w)"
  by (auto simp: getattr_call_def call_download_def call_upload_def
      run_shape_download run_shape_upload split: json.splits option.splits)

lemma run_shape_lfs_gcs_getattr_call:
  "run_shape (lfs_gcs_getattr_call client event oid request w)"
  by (auto simp: lfs_gcs_getattr_call_def lfs_gcs_call_download_def lfs_gcs_call_upload_def
      run_shape_lfs_gcs_download run_shape_lfs_gcs_upload split: json.splits option.splits)

lemma one_complete_after_progress:
  "list_all is_progress ps \<Longrightarrow> is_complete c \<Longrightarrow> length (filter is_complete (ps @ [c])) = 1"
  by (induction ps) (auto dest: progress_not_complete)

lemma run_shape_success:
  assumes "run_shape (evs, None, w)"
  shows "length (filter is_complete evs) = 1 \<and> is_complete (last evs)"
proof -
  from assms have ne: "evs \<noteq> []" and ps: "list_all is_progress (butlast evs)"
    and c: "is_complete (last evs)"
    by (simp_all add: run_shape_def)
  from ne have "evs = butlast evs @ [last evs]" by simp
  with one_complete_after_progress [OF ps c] c show ?thesis by simp
qed

section \<open>One request of the loop\<close>

lemma handle_request_one_complete:
  "length (filter is_complete (fst (handle_request client event oid request w))) = 1
   \<and> is_complete (last (fst (handle_request client event oid request w)))"
proof -
  obtain evs r w' where g: "getattr_call client event oid request w = (evs, r, w')"
    by (cases "getattr_call client event oid request w") auto
  have sh: "run_shape (evs, r, w')"
    using run_shape_getattr_call [of client event oid request w] g by simp
  show ?thesis
  proof (cases r)
    case None
    with sh g show ?thesis by (simp add: handle_request_def run_shape_success)
  next
    case (Some e)
    with sh have "list_all is_progress evs" by (simp add: run_shape_def)
    then have "length (filter is_complete (evs @ [complete_error oid e])) = 1"
      by (rule one_complete_after_progress) simp
    with Some g show ?thesis by (simp add: handle_request_def)
  qed
qed

lemma lfs_gcs_handle_request_one_complete:
  "length (filter is_complete (fst (lfs_gcs_handle_request client event oid request w))) = 1
   \<and> is_complete (last (fst (lfs_gcs_handle_request client event oid request w)))"
proof -
  obtain evs r w' where g: "lfs_gcs_getattr_call client event oid request w = (evs, r, w')"
    by (cases "lfs_gcs_getattr_call client event oid request w") auto
  have sh: "run_shape (evs, r, w')"
    using run_shape_lfs_gcs_getattr_call [of client event oid request w] g by simp
  show ?thesis
  proof (cases r)
    case None
    with sh g show ?thesis by (simp add: lfs_gcs_handle_request_def run_shape_success)
  next
    case (Some e)
    with sh have "list_all is_progress evs" by (simp add: run_shape_def)
    then have "length (filter is_complete (evs @ [complete_error oid e])) = 1"
      by (rule one_complete_after_progress) simp
    with Some g show ?thesis by (simp add: lfs_gcs_handle_request_def)
  qed
qed

lemma map_of_filter_other:
  "k \<noteq> k' \<Longrightarrow> map_of (filter (\<lambda>kv. fst kv \<noteq> k') d) k = map_of d k"
  by (induction d) auto

lemma agent_loop_request:
  assumes "map_of d ''event'' = Some event" and "event \<noteq> JStr ''terminate''"
    and "map_of d ''oid'' = Some oid"
  shows "agent_loop client (Decoded (JObj d) # rest) w =
     (case handle_request client event oid (leftover d) w of
        (out, w1) \<Rightarrow>
          (case agent_loop client rest w1 of (out', r, w2) \<Rightarrow> (out @ out', r, w2)))"
  using assms by (simp add: leftover_def map_of_filter_other)

lemma lfs_gcs_main_loop_request:
  assumes "map_of d ''event'' = Some event" and "event \<noteq> JStr ''terminate''"
    and "map_of d ''oid'' = Some oid"
  shows "lfs_gcs_main_loop client (Decoded (JObj d) # rest) w =
     (case lfs_gcs_handle_request client event oid (leftover d) w of
        (out, w1) \<Rightarrow>
          (case lfs_gcs_main_loop client rest w1 of (out', r, w2) \<Rightarrow> (out @ out', r, w2)))"
  using assms by (simp add: leftover_def map_of_filter_other)

section \<open>The handshake\<close>

lemma agent_Cons:
  "agent (first # ls) w =
     (case logging_setup w of
        Some e \<Rightarrow> ([], Some e, w)
      | None \<Rightarrow>
        (case loads first of
           Inl e \<Rightarrow> ([], Some e, w)
         | Inr first_request \<Rightarrow>
             (case subscript first_request ''event'' of
                Inl e \<Rightarrow> ([], Some e, w)
              | Inr event \<Rightarrow>
                  if event \<noteq> JStr ''init'' then ([], Some AssertionError, w)
                  else
                    (case create w of
                       Inl e \<Rightarrow> ([], Some e, w)
                     | Inr client \<Rightarrow>
                         (case agent_loop client ls w of
                            (out, r, w') \<Rightarrow> (JObj [] # out, r, w'))))))"
  by (simp add: agent_def readline_def split: option.splits)

lemma lfs_gcs_main_Cons:
  "lfs_gcs_main (first # ls) w =
     (case lfs_gcs_logging_setup w of
        Some e \<Rightarrow> ([], Some e, w)
      | None \<Rightarrow>
        (case loads first of
           Inl e \<Rightarrow> ([], Some e, w)
         | Inr first_request \<Rightarrow>
             (case subscript first_request ''event'' of
                Inl e \<Rightarrow> ([], Some e, w)
              | Inr event \<Rightarrow>
                  if event \<noteq> JStr ''init'' then ([], Some AssertionError, w)
                  else
                    (case lfs_gcs_create w of
                       Inl e \<Rightarrow> ([], Some e, w)
                     | Inr client \<Rightarrow>
                         (case lfs_gcs_main_loop client ls w of
                            (out, r, w') \<Rightarrow> (JObj [] # out, r, w'))))))"
  by (simp add: lfs_gcs_main_def readline_def split: option.splits)

text \<open>
  After a handshake that succeeds, the process prints \<^verbatim>\<open>{}\<close> and then what the loop
  prints, and ends as the loop ends: an exception that leaves the loop leaves the
  process.
\<close>

lemma agent_after_handshake:
  assumes "handshake_ok first w"
  shows "\<exists>client. create w = Inr client
     \<and> agent (first # ls) w =
         (JObj [] # fst (agent_loop client ls w), snd (agent_loop client ls w))"
  using assms
  by (auto simp: handshake_ok_def agent_Cons create_def split: sum.splits prod.splits)

lemma lfs_gcs_main_after_handshake:
  assumes "lfs_gcs_handshake_ok first w"
  shows "\<exists>client. lfs_gcs_create w = Inr client
     \<and> lfs_gcs_main (first # ls) w =
         (JObj [] # fst (lfs_gcs_main_loop client ls w), snd (lfs_gcs_main_loop client ls w))"
  using assms
  by (auto simp: lfs_gcs_handshake_ok_def lfs_gcs_main_Cons lfs_gcs_create_def Let_def
      split: sum.splits prod.splits)

lemma handshake_ok_example: "handshake_ok init_line example_world"
  by (simp add: handshake_ok_def logging_setup_def init_line_def example_world_def
      config_option_def strip_def isspace_def)

lemma lfs_gcs_handshake_ok_example: "lfs_gcs_handshake_ok init_line example_world"
  by (simp add: lfs_gcs_handshake_ok_def lfs_gcs_logging_setup_def init_line_def
      example_world_def config_option_def strip_def isspace_def)

lemma create_example: "create example_world = Inr example_client"
  by (simp add: create_def example_client_def example_world_def config_option_def strip_def
      isspace_def)

lemma lfs_gcs_create_example: "lfs_gcs_create example_world = Inr example_lfs_gcs_client"
  by (simp add: lfs_gcs_create_def example_lfs_gcs_client_def example_world_def
      config_option_def strip_def isspace_def Let_def)

section \<open>Exactly one \<^verbatim>\<open>complete\<close> event per request\<close>

text \<open>
  C1. For every \<^verbatim>\<open>upload\<close> or \<^verbatim>\<open>download\<close> request that the loop accepts (a decoded
  object with the fields \<^verbatim>\<open>event\<close> and \<^verbatim>\<open>oid\<close>), what the loop prints for the request
  holds exactly one \<^verbatim>\<open>complete\<close> event, the last one printed for it, however many
  progress events come before it and whether the operation ended normally or by an
  exception; the loop then goes on with the rest of the input. This holds for the loop
  of \<^verbatim>\<open>git_lfs_gcs.py\<close> and for that of \<^verbatim>\<open>lfs_gcs.py\<close>.
\<close>

theorem exactly_one_complete_per_request:
  assumes "map_of d ''event'' = Some event"
    and "event = JStr ''upload'' \<or> event = JStr ''download''"
    and "map_of d ''oid'' = Some oid"
  shows
    "(\<exists>out w1. handle_request client event oid (leftover d) w = (out, w1)
        \<and> length (filter is_complete out) = 1 \<and> is_complete (last out)
        \<and> agent_loop client (Decoded (JObj d) # rest) w =
            (out @ fst (agent_loop client rest w1), snd (agent_loop client rest w1)))
     \<and> (\<exists>out w1. lfs_gcs_handle_request client' event oid (leftover d) w = (out, w1)
        \<and> length (filter is_complete out) = 1 \<and> is_complete (last out)
        \<and> lfs_gcs_main_loop client' (Decoded (JObj d) # rest) w =
            (out @ fst (lfs_gcs_main_loop client' rest w1),
             snd (lfs_gcs_main_loop client' rest w1)))"
proof -
  from assms(2) have nt: "event \<noteq> JStr ''terminate''" by auto
  obtain out w1 where h: "handle_request client event oid (leftover d) w = (out, w1)"
    by (cases "handle_request client event oid (leftover d) w") auto
  obtain out' w1' where
    h': "lfs_gcs_handle_request client' event oid (leftover d) w = (out', w1')"
    by (cases "lfs_gcs_handle_request client' event oid (leftover d) w") auto
  have a: "length (filter is_complete out) = 1 \<and> is_complete (last out)"
    using handle_request_one_complete [of client event oid "leftover d" w] h by simp
  have a': "length (filter is_complete out') = 1 \<and> is_complete (last out')"
    using lfs_gcs_handle_request_one_complete [of client' event oid "leftover d" w] h' by simp
  have l: "agent_loop client (Decoded (JObj d) # rest) w =
      (out @ fst (agent_loop client rest w1), snd (agent_loop client rest w1))"
    using agent_loop_request [OF assms(1) nt assms(3), of client rest w] h
    by (simp split: prod.splits)
  have l': "lfs_gcs_main_loop client' (Decoded (JObj d) # rest) w =
      (out' @ fst (lfs_gcs_main_loop client' rest w1'), snd (lfs_gcs_main_loop client' rest w1'))"
    using lfs_gcs_main_loop_request [OF assms(1) nt assms(3), of client' rest w] h'
    by (simp split: prod.splits)
  from h a l h' a' l' show ?thesis by blast
qed

theorem exactly_one_complete_per_request_witness:
  "map_of download_abc ''event'' = Some (JStr ''download'')
   \<and> map_of download_abc ''oid'' = Some (JStr ''abc'')
   \<and> (\<exists>out w1. handle_request example_client (JStr ''download'') (JStr ''abc'')
          (leftover download_abc) example_world = (out, w1)
        \<and> length (filter is_complete out) = 1 \<and> is_complete (last out)
        \<and> agent_loop example_client [Decoded (JObj download_abc)] example_world =
            (out @ fst (agent_loop example_client [] w1),
             snd (agent_loop example_client [] w1)))
   \<and> (\<exists>out w1. lfs_gcs_handle_request example_lfs_gcs_client (JStr ''download'')
          (JStr ''abc'') (leftover download_abc) example_world = (out, w1)
        \<and> length (filter is_complete out) = 1 \<and> is_complete (last out)
        \<and> lfs_gcs_main_loop example_lfs_gcs_client [Decoded (JObj download_abc)]
            example_world =
            (out @ fst (lfs_gcs_main_loop example_lfs_gcs_client [] w1),
             snd (lfs_gcs_main_loop example_lfs_gcs_client [] w1)))"
proof -
  have e: "map_of download_abc ''event'' = Some (JStr ''download'')"
    and o: "map_of download_abc ''oid'' = Some (JStr ''abc'')"
    by (simp_all add: download_abc_def)
  have k: "JStr ''download'' = JStr ''upload'' \<or> JStr ''download'' = JStr ''download''"
    by simp
  from e o exactly_one_complete_per_request [OF e k o] show ?thesis
    by blast
qed

section \<open>Failures of an operation\<close>

lemma handle_request_failure:
  "getattr_call client event oid request w = (evs, Some e, w1) \<Longrightarrow>
   handle_request client event oid request w = (evs @ [complete_error oid e], w1)"
  by (simp add: handle_request_def)

lemma lfs_gcs_handle_request_failure:
  "lfs_gcs_getattr_call client event oid request w = (evs, Some e, w1) \<Longrightarrow>
   lfs_gcs_handle_request client event oid request w = (evs @ [complete_error oid e], w1)"
  by (simp add: lfs_gcs_handle_request_def)

lemma field_oid_complete_error [simp]: "field (complete_error oid e) ''oid'' = Some oid"
  by (simp add: field_def complete_error_def)

text \<open>
  C3. Once \<^verbatim>\<open>event\<close> and \<^verbatim>\<open>oid\<close> are read, an exception \<open>e\<close> raised by the operation
  (after the progress events \<open>evs\<close> it had yielded) is caught: the loop prints \<open>evs\<close>,
  none of them a \<^verbatim>\<open>complete\<close> event, then the one event
  \<^verbatim>\<open>{"event": "complete", "oid": oid, "error": {"code": 2, "message": str(e)}}\<close>, and
  goes on with the remaining input from the world the failed operation left. This
  holds for both modules, and for any event name other than \<^verbatim>\<open>terminate\<close>, so for
  \<^verbatim>\<open>upload\<close> and \<^verbatim>\<open>download\<close>.
\<close>

theorem failure_reported_and_session_continues:
  assumes "map_of d ''event'' = Some event" and "event \<noteq> JStr ''terminate''"
    and "map_of d ''oid'' = Some oid"
  shows
    "(getattr_call client event oid (leftover d) w = (evs, Some e, w1) \<longrightarrow>
        agent_loop client (Decoded (JObj d) # rest) w =
          (evs @ [complete_error oid e] @ fst (agent_loop client rest w1),
           snd (agent_loop client rest w1))
        \<and> list_all is_progress evs)
     \<and> (lfs_gcs_getattr_call client' event oid (leftover d) w = (evs', Some e', w1') \<longrightarrow>
        lfs_gcs_main_loop client' (Decoded (JObj d) # rest) w =
          (evs' @ [complete_error oid e'] @ fst (lfs_gcs_main_loop client' rest w1'),
           snd (lfs_gcs_main_loop client' rest w1'))
        \<and> list_all is_progress evs')
     \<and> is_complete (complete_error oid e) \<and> field (complete_error oid e) ''oid'' = Some oid
     \<and> field (complete_error oid e) ''error'' =
          Some (JObj [(''code'', JInt 2), (''message'', JStr (str_exn e))])"
proof -
  have a: "agent_loop client (Decoded (JObj d) # rest) w =
          (evs @ [complete_error oid e] @ fst (agent_loop client rest w1),
           snd (agent_loop client rest w1)) \<and> list_all is_progress evs"
    if g: "getattr_call client event oid (leftover d) w = (evs, Some e, w1)"
  proof -
    from run_shape_getattr_call [of client event oid "leftover d" w] g
    have "list_all is_progress evs" by (simp add: run_shape_def)
    moreover from agent_loop_request [OF assms, of client rest w] handle_request_failure [OF g]
    have "agent_loop client (Decoded (JObj d) # rest) w =
          (evs @ [complete_error oid e] @ fst (agent_loop client rest w1),
           snd (agent_loop client rest w1))"
      by (simp split: prod.splits)
    ultimately show ?thesis by simp
  qed
  have b: "lfs_gcs_main_loop client' (Decoded (JObj d) # rest) w =
          (evs' @ [complete_error oid e'] @ fst (lfs_gcs_main_loop client' rest w1'),
           snd (lfs_gcs_main_loop client' rest w1')) \<and> list_all is_progress evs'"
    if g: "lfs_gcs_getattr_call client' event oid (leftover d) w = (evs', Some e', w1')"
  proof -
    from run_shape_lfs_gcs_getattr_call [of client' event oid "leftover d" w] g
    have "list_all is_progress evs'" by (simp add: run_shape_def)
    moreover from lfs_gcs_main_loop_request [OF assms, of client' rest w]
      lfs_gcs_handle_request_failure [OF g]
    have "lfs_gcs_main_loop client' (Decoded (JObj d) # rest) w =
          (evs' @ [complete_error oid e'] @ fst (lfs_gcs_main_loop client' rest w1'),
           snd (lfs_gcs_main_loop client' rest w1'))"
      by (simp split: prod.splits)
    ultimately show ?thesis by simp
  qed
  from a b show ?thesis by simp
qed

lemma upload_missing_fails:
  "getattr_call example_client (JStr ''upload'') (JStr ''abc'') (leftover upload_missing)
     example_world =
     ([], Some (OSError ''[Errno 2] No such file or directory: missing.bin''), example_world)"
  by (simp add: getattr_call_def call_upload_def bind_error_def arg_def upload_def open_rb_def
      file_open_rb_def next_fault_def absolute_def join_def example_world_def leftover_def
      upload_missing_def example_client_def)

lemma lfs_gcs_upload_missing_fails:
  "lfs_gcs_getattr_call example_lfs_gcs_client (JStr ''upload'') (JStr ''abc'')
     (leftover upload_missing) example_world =
     ([], Some (OSError ''[Errno 2] No such file or directory: missing.bin''), example_world)"
  by (simp add: lfs_gcs_getattr_call_def lfs_gcs_call_upload_def bind_error_def arg_def
      lfs_gcs_upload_def open_rb_def
      file_open_rb_def next_fault_def absolute_def join_def example_world_def leftover_def
      upload_missing_def example_lfs_gcs_client_def)

theorem failure_reported_and_session_continues_witness:
  "agent_loop example_client [Decoded (JObj upload_missing), Decoded (JObj download_abc)]
     example_world =
     ([] @ [complete_error (JStr ''abc'')
              (OSError ''[Errno 2] No such file or directory: missing.bin'')]
        @ fst (agent_loop example_client [Decoded (JObj download_abc)] example_world),
      snd (agent_loop example_client [Decoded (JObj download_abc)] example_world))
   \<and> lfs_gcs_main_loop example_lfs_gcs_client
       [Decoded (JObj upload_missing), Decoded (JObj download_abc)] example_world =
     ([] @ [complete_error (JStr ''abc'')
              (OSError ''[Errno 2] No such file or directory: missing.bin'')]
        @ fst (lfs_gcs_main_loop example_lfs_gcs_client [Decoded (JObj download_abc)]
                 example_world),
      snd (lfs_gcs_main_loop example_lfs_gcs_client [Decoded (JObj download_abc)]
             example_world))"
proof -
  have e: "map_of upload_missing ''event'' = Some (JStr ''upload'')"
    and nt: "JStr ''upload'' \<noteq> JStr ''terminate''"
    and o: "map_of upload_missing ''oid'' = Some (JStr ''abc'')"
    by (simp_all add: upload_missing_def)
  from failure_reported_and_session_continues [OF e nt o, of example_client example_world
      "[]" "OSError ''[Errno 2] No such file or directory: missing.bin''" example_world
      "[Decoded (JObj download_abc)]" example_lfs_gcs_client
      "[]" "OSError ''[Errno 2] No such file or directory: missing.bin''" example_world]
    upload_missing_fails lfs_gcs_upload_missing_fails
  show ?thesis by simp
qed

section \<open>Requests the loop does not serve\<close>

lemma served_requestE:
  assumes "served_request l"
  obtains d event oid where "l = Decoded (JObj d)" "map_of d ''event'' = Some event"
    "event \<noteq> JStr ''terminate''" "map_of d ''oid'' = Some oid"
  using assms
  by (auto simp: served_request_def split: line.splits json.splits option.splits)

lemma agent_loop_served:
  assumes "list_all served_request pre"
  shows "agent_loop client (pre @ ls) w =
       (fst (agent_loop client pre w)
          @ fst (agent_loop client ls (snd (snd (agent_loop client pre w)))),
        snd (agent_loop client ls (snd (snd (agent_loop client pre w)))))
     \<and> fst (snd (agent_loop client pre w)) = None"
  using assms
proof (induction pre arbitrary: w)
  case Nil
  show ?case by simp
next
  case (Cons l pre)
  from Cons.prems have "served_request l" and pre: "list_all served_request pre"
    by simp_all
  then obtain d event oid where l: "l = Decoded (JObj d)"
    and d: "map_of d ''event'' = Some event" "event \<noteq> JStr ''terminate''"
      "map_of d ''oid'' = Some oid"
    by (auto elim: served_requestE)
  obtain out w1 where h: "handle_request client event oid (leftover d) w = (out, w1)"
    by (cases "handle_request client event oid (leftover d) w") auto
  from Cons.IH [OF pre, of w1] h show ?case
    unfolding l append_Cons agent_loop_request [OF d]
    by (auto split: prod.splits)
qed

lemma lfs_gcs_main_loop_served:
  assumes "list_all served_request pre"
  shows "lfs_gcs_main_loop client (pre @ ls) w =
       (fst (lfs_gcs_main_loop client pre w)
          @ fst (lfs_gcs_main_loop client ls (snd (snd (lfs_gcs_main_loop client pre w)))),
        snd (lfs_gcs_main_loop client ls (snd (snd (lfs_gcs_main_loop client pre w)))))
     \<and> fst (snd (lfs_gcs_main_loop client pre w)) = None"
  using assms
proof (induction pre arbitrary: w)
  case Nil
  show ?case by simp
next
  case (Cons l pre)
  from Cons.prems have "served_request l" and pre: "list_all served_request pre"
    by simp_all
  then obtain d event oid where l: "l = Decoded (JObj d)"
    and d: "map_of d ''event'' = Some event" "event \<noteq> JStr ''terminate''"
      "map_of d ''oid'' = Some oid"
    by (auto elim: served_requestE)
  obtain out w1 where h: "lfs_gcs_handle_request client event oid (leftover d) w = (out, w1)"
    by (cases "lfs_gcs_handle_request client event oid (leftover d) w") auto
  from Cons.IH [OF pre, of w1] h show ?case
    unfolding l append_Cons lfs_gcs_main_loop_request [OF d]
    by (auto split: prod.splits)
qed

lemma download_abc_run:
  "fst (agent_loop example_client [Decoded (JObj download_abc)] example_world) =
     [progress ''abc'' 3 3, complete_download ''abc'' ''/repo/lfs-download-abc.tmp'']"
  "fst (snd (agent_loop example_client [Decoded (JObj download_abc)] example_world)) = None"
  "fst (lfs_gcs_main_loop example_lfs_gcs_client [Decoded (JObj download_abc)] example_world) =
     [progress ''abc'' 3 3, complete_download ''abc'' ''/repo/lfs-download-abc.tmp'']"
  "fst (snd (lfs_gcs_main_loop example_lfs_gcs_client [Decoded (JObj download_abc)]
     example_world)) = None"
  by (simp_all add: download_abc_def lfs_gcs_handle_request_def lfs_gcs_getattr_call_def
      lfs_gcs_call_download_def lfs_gcs_download_def handle_request_def getattr_call_def
      call_download_def bind_error_def arg_def download_def open_auto_cleanup_def unlink_def
      example_lfs_gcs_client_def example_client_def example_world_def
      blob_open_rb_def file_open_wb_def with_sink_def sink_close_def next_fault_def
      transfer_def transfer_loop.simps stream_read_def append_to_def CHUNK_SIZE_def MB_def
      absolute_def join_def Let_def progress_def)

lemma download_abc_served: "list_all served_request [Decoded (JObj download_abc)]"
  by (simp add: served_request_def download_abc_def)

text \<open>
  C9. A request after the handshake whose event is not \<^verbatim>\<open>terminate\<close> and that has no
  \<^verbatim>\<open>oid\<close> field: \<^verbatim>\<open>request.pop("oid")\<close> stands before the \<^verbatim>\<open>try\<close>, so the
  \<^verbatim>\<open>KeyError\<close> leaves the loop and ends the process. For the loop, from any state:
  nothing is printed for the request (no \<^verbatim>\<open>complete\<close> event), the rest of the input is
  not read, and the loop ends with \<^verbatim>\<open>KeyError\<close>. For the whole of \<^verbatim>\<open>agent\<close> and of
  \<^verbatim>\<open>main\<close>, after a handshake that succeeds (the transport \<^verbatim>\<open>create\<close> builds then
  exists): with the request as the first one, the output is the acknowledgement
  \<^verbatim>\<open>{}\<close> alone, the world is unchanged, the result is \<^verbatim>\<open>KeyError\<close> and the exit
  status is 1; with the request after any requests \<open>pre\<close> that the loop served, the
  output is the acknowledgement and what \<open>pre\<close> printed, nothing more, in the world
  \<open>pre\<close> left, again with \<^verbatim>\<open>KeyError\<close> and the exit status 1. Both modules.
\<close>

theorem missing_oid_crashes:
  assumes "map_of d ''event'' = Some event" and "event \<noteq> JStr ''terminate''"
    and "map_of d ''oid'' = None"
  shows "agent_loop client (Decoded (JObj d) # rest) w = ([], Some (KeyError ''oid''), w)
     \<and> lfs_gcs_main_loop client' (Decoded (JObj d) # rest) w = ([], Some (KeyError ''oid''), w)
     \<and> exit_status ([], Some (KeyError ''oid''), w) = 1
     \<and> (handshake_ok first w \<longrightarrow>
          agent (first # Decoded (JObj d) # rest) w = ([JObj []], Some (KeyError ''oid''), w)
          \<and> exit_status (agent (first # Decoded (JObj d) # rest) w) = 1)
     \<and> (lfs_gcs_handshake_ok first w \<longrightarrow>
          lfs_gcs_main (first # Decoded (JObj d) # rest) w =
            ([JObj []], Some (KeyError ''oid''), w)
          \<and> exit_status (lfs_gcs_main (first # Decoded (JObj d) # rest) w) = 1)
     \<and> (handshake_ok first w \<and> create w = Inr client \<and> list_all served_request pre \<longrightarrow>
          agent (first # pre @ Decoded (JObj d) # rest) w =
            (JObj [] # fst (agent_loop client pre w), Some (KeyError ''oid''),
             snd (snd (agent_loop client pre w)))
          \<and> exit_status (agent (first # pre @ Decoded (JObj d) # rest) w) = 1)
     \<and> (lfs_gcs_handshake_ok first w \<and> lfs_gcs_create w = Inr client'
          \<and> list_all served_request pre \<longrightarrow>
          lfs_gcs_main (first # pre @ Decoded (JObj d) # rest) w =
            (JObj [] # fst (lfs_gcs_main_loop client' pre w), Some (KeyError ''oid''),
             snd (snd (lfs_gcs_main_loop client' pre w)))
          \<and> exit_status (lfs_gcs_main (first # pre @ Decoded (JObj d) # rest) w) = 1)
     \<and> (handshake_ok first w \<longrightarrow> (\<exists>c. create w = Inr c))
     \<and> (lfs_gcs_handshake_ok first w \<longrightarrow> (\<exists>c. lfs_gcs_create w = Inr c))"
proof -
  have ex: "\<exists>c. create w = Inr c" if ok: "handshake_ok first w"
    using agent_after_handshake [OF ok, of "[]"] by blast
  have ex': "\<exists>c. lfs_gcs_create w = Inr c" if ok: "lfs_gcs_handshake_ok first w"
    using lfs_gcs_main_after_handshake [OF ok, of "[]"] by blast
  have crash: "agent_loop c (Decoded (JObj d) # rest) v = ([], Some (KeyError ''oid''), v)"
    for c v
    using assms by (simp add: map_of_filter_other)
  have crash': "lfs_gcs_main_loop c (Decoded (JObj d) # rest) v = ([], Some (KeyError ''oid''), v)"
    for c v
    using assms by (simp add: map_of_filter_other)
  have gen: "agent (first # pre @ Decoded (JObj d) # rest) w =
            (JObj [] # fst (agent_loop client pre w), Some (KeyError ''oid''),
             snd (snd (agent_loop client pre w)))
          \<and> exit_status (agent (first # pre @ Decoded (JObj d) # rest) w) = 1"
    if ok: "handshake_ok first w" and c: "create w = Inr client"
      and pre: "list_all served_request pre" for pre
  proof -
    from agent_after_handshake [OF ok, of "pre @ Decoded (JObj d) # rest"] c
    have "agent (first # pre @ Decoded (JObj d) # rest) w =
        (JObj [] # fst (agent_loop client (pre @ Decoded (JObj d) # rest) w),
         snd (agent_loop client (pre @ Decoded (JObj d) # rest) w))"
      by simp
    also from agent_loop_served [OF pre, of client "Decoded (JObj d) # rest" w]
    have "agent_loop client (pre @ Decoded (JObj d) # rest) w =
        (fst (agent_loop client pre w), Some (KeyError ''oid''),
         snd (snd (agent_loop client pre w)))"
      by (simp add: crash del: agent_loop.simps)
    finally show ?thesis by (simp add: exit_status_def)
  qed
  have gen': "lfs_gcs_main (first # pre @ Decoded (JObj d) # rest) w =
            (JObj [] # fst (lfs_gcs_main_loop client' pre w), Some (KeyError ''oid''),
             snd (snd (lfs_gcs_main_loop client' pre w)))
          \<and> exit_status (lfs_gcs_main (first # pre @ Decoded (JObj d) # rest) w) = 1"
    if ok: "lfs_gcs_handshake_ok first w" and c: "lfs_gcs_create w = Inr client'"
      and pre: "list_all served_request pre" for pre
  proof -
    from lfs_gcs_main_after_handshake [OF ok, of "pre @ Decoded (JObj d) # rest"] c
    have "lfs_gcs_main (first # pre @ Decoded (JObj d) # rest) w =
        (JObj [] # fst (lfs_gcs_main_loop client' (pre @ Decoded (JObj d) # rest) w),
         snd (lfs_gcs_main_loop client' (pre @ Decoded (JObj d) # rest) w))"
      by simp
    also from lfs_gcs_main_loop_served [OF pre, of client' "Decoded (JObj d) # rest" w]
    have "lfs_gcs_main_loop client' (pre @ Decoded (JObj d) # rest) w =
        (fst (lfs_gcs_main_loop client' pre w), Some (KeyError ''oid''),
         snd (snd (lfs_gcs_main_loop client' pre w)))"
      by (simp add: crash' del: lfs_gcs_main_loop.simps)
    finally show ?thesis by (simp add: exit_status_def)
  qed
  have first: "agent (first # Decoded (JObj d) # rest) w = ([JObj []], Some (KeyError ''oid''), w)
          \<and> exit_status (agent (first # Decoded (JObj d) # rest) w) = 1"
    if ok: "handshake_ok first w"
    using agent_after_handshake [OF ok, of "Decoded (JObj d) # rest"]
    by (auto simp: crash exit_status_def simp del: agent_loop.simps)
  have first': "lfs_gcs_main (first # Decoded (JObj d) # rest) w =
            ([JObj []], Some (KeyError ''oid''), w)
          \<and> exit_status (lfs_gcs_main (first # Decoded (JObj d) # rest) w) = 1"
    if ok: "lfs_gcs_handshake_ok first w"
    using lfs_gcs_main_after_handshake [OF ok, of "Decoded (JObj d) # rest"]
    by (auto simp: crash' exit_status_def simp del: lfs_gcs_main_loop.simps)
  have "exit_status ([], Some (KeyError ''oid''), w) = 1"
    by (simp add: exit_status_def)
  with crash [of client w] crash' [of client' w] first first' gen [of pre] gen' [of pre]
    ex ex'
  show ?thesis by blast
qed

theorem missing_oid_crashes_witness:
  "agent_loop example_client [Decoded (JObj download_no_oid), Decoded (JObj download_abc)]
     example_world = ([], Some (KeyError ''oid''), example_world)
   \<and> lfs_gcs_main_loop example_lfs_gcs_client
       [Decoded (JObj download_no_oid), Decoded (JObj download_abc)] example_world =
       ([], Some (KeyError ''oid''), example_world)
   \<and> agent [init_line, Decoded (JObj download_no_oid), Decoded (JObj download_abc)]
       example_world = ([JObj []], Some (KeyError ''oid''), example_world)
   \<and> exit_status (agent [init_line, Decoded (JObj download_no_oid),
         Decoded (JObj download_abc)] example_world) = 1
   \<and> lfs_gcs_main [init_line, Decoded (JObj download_no_oid), Decoded (JObj download_abc)]
       example_world = ([JObj []], Some (KeyError ''oid''), example_world)
   \<and> exit_status (lfs_gcs_main [init_line, Decoded (JObj download_no_oid),
         Decoded (JObj download_abc)] example_world) = 1
   \<and> fst (agent [init_line, Decoded (JObj download_abc), Decoded (JObj download_no_oid),
         Decoded (JObj download_abc)] example_world) =
       [JObj [], progress ''abc'' 3 3,
        complete_download ''abc'' ''/repo/lfs-download-abc.tmp'']
   \<and> exit_status (agent [init_line, Decoded (JObj download_abc),
         Decoded (JObj download_no_oid), Decoded (JObj download_abc)] example_world) = 1
   \<and> fst (lfs_gcs_main [init_line, Decoded (JObj download_abc),
         Decoded (JObj download_no_oid), Decoded (JObj download_abc)] example_world) =
       [JObj [], progress ''abc'' 3 3,
        complete_download ''abc'' ''/repo/lfs-download-abc.tmp'']
   \<and> exit_status (lfs_gcs_main [init_line, Decoded (JObj download_abc),
         Decoded (JObj download_no_oid), Decoded (JObj download_abc)] example_world) = 1"
proof -
  have e: "map_of download_no_oid ''event'' = Some (JStr ''download'')"
    and nt: "JStr ''download'' \<noteq> JStr ''terminate''"
    and o: "map_of download_no_oid ''oid'' = None"
    by (simp_all add: download_no_oid_def)
  from missing_oid_crashes [OF e nt o, of example_client "[Decoded (JObj download_abc)]"
      example_world example_lfs_gcs_client init_line "[Decoded (JObj download_abc)]"]
    handshake_ok_example lfs_gcs_handshake_ok_example create_example lfs_gcs_create_example
    download_abc_served download_abc_run
  show ?thesis
    by (simp add: exit_status_def del: agent_loop.simps lfs_gcs_main_loop.simps)
qed

lemma getattr_call_other:
  assumes "event \<noteq> JStr ''upload''" and "event \<noteq> JStr ''download''"
  shows "\<exists>m. getattr_call client event oid request w = ([], Some (AttributeError m), w)
           \<or> getattr_call client event oid request w = ([], Some (TypeError m), w)"
  using assms by (cases event) (auto simp: getattr_call_def)

lemma lfs_gcs_getattr_call_other:
  assumes "event \<noteq> JStr ''upload''" and "event \<noteq> JStr ''download''"
  shows "\<exists>m. lfs_gcs_getattr_call client event oid request w = ([], Some (AttributeError m), w)
           \<or> lfs_gcs_getattr_call client event oid request w = ([], Some (TypeError m), w)"
  using assms by (cases event) (auto simp: lfs_gcs_getattr_call_def)

text \<open>
  C10. A request after the handshake that has an \<^verbatim>\<open>oid\<close> and whose event is none of
  \<^verbatim>\<open>terminate\<close>, \<^verbatim>\<open>upload\<close>, \<^verbatim>\<open>download\<close>: \<^verbatim>\<open>getattr(client, event)(oid=oid, ...)\<close>
  raises inside the \<^verbatim>\<open>try\<close> (\<^verbatim>\<open>AttributeError\<close> for a name the transport does not have,
  \<^verbatim>\<open>TypeError\<close> for one it has but that cannot be called so), the loop prints exactly one
  event for the request, \<^verbatim>\<open>complete\<close> with the request's \<^verbatim>\<open>oid\<close> and
  \<^verbatim>\<open>error {code: 2, message}\<close>, and goes on with the rest of the input in an unchanged
  world. Both modules.
\<close>

theorem unknown_event_reported:
  assumes "map_of d ''event'' = Some event"
    and "event \<noteq> JStr ''terminate''" and "event \<noteq> JStr ''upload''"
    and "event \<noteq> JStr ''download''"
    and "map_of d ''oid'' = Some oid"
  shows
    "(\<exists>e. (\<exists>m. e = AttributeError m \<or> e = TypeError m)
        \<and> agent_loop client (Decoded (JObj d) # rest) w =
            (complete_error oid e # fst (agent_loop client rest w),
             snd (agent_loop client rest w)))
     \<and> (\<exists>e. (\<exists>m. e = AttributeError m \<or> e = TypeError m)
        \<and> lfs_gcs_main_loop client' (Decoded (JObj d) # rest) w =
            (complete_error oid e # fst (lfs_gcs_main_loop client' rest w),
             snd (lfs_gcs_main_loop client' rest w)))"
proof -
  from getattr_call_other [OF assms(3,4), of client oid "leftover d" w]
  obtain e where e: "\<exists>m. e = AttributeError m \<or> e = TypeError m"
    and g: "getattr_call client event oid (leftover d) w = ([], Some e, w)"
    by blast
  from lfs_gcs_getattr_call_other [OF assms(3,4), of client' oid "leftover d" w]
  obtain e' where e': "\<exists>m. e' = AttributeError m \<or> e' = TypeError m"
    and g': "lfs_gcs_getattr_call client' event oid (leftover d) w = ([], Some e', w)"
    by blast
  have "agent_loop client (Decoded (JObj d) # rest) w =
            (complete_error oid e # fst (agent_loop client rest w),
             snd (agent_loop client rest w))"
    using agent_loop_request [OF assms(1,2,5), of client rest w] g
    by (simp add: handle_request_def split: prod.splits)
  moreover have "lfs_gcs_main_loop client' (Decoded (JObj d) # rest) w =
            (complete_error oid e' # fst (lfs_gcs_main_loop client' rest w),
             snd (lfs_gcs_main_loop client' rest w))"
    using lfs_gcs_main_loop_request [OF assms(1,2,5), of client' rest w] g'
    by (simp add: lfs_gcs_handle_request_def split: prod.splits)
  ultimately show ?thesis using e e' by blast
qed

theorem unknown_event_reported_witness:
  "(\<exists>e. (\<exists>m. e = AttributeError m \<or> e = TypeError m)
        \<and> agent_loop example_client [Decoded (JObj verify_abc), Decoded (JObj download_abc)]
            example_world =
            (complete_error (JStr ''abc'') e
               # fst (agent_loop example_client [Decoded (JObj download_abc)] example_world),
             snd (agent_loop example_client [Decoded (JObj download_abc)] example_world)))
     \<and> (\<exists>e. (\<exists>m. e = AttributeError m \<or> e = TypeError m)
        \<and> lfs_gcs_main_loop example_lfs_gcs_client
            [Decoded (JObj verify_abc), Decoded (JObj download_abc)] example_world =
            (complete_error (JStr ''abc'') e
               # fst (lfs_gcs_main_loop example_lfs_gcs_client [Decoded (JObj download_abc)]
                        example_world),
             snd (lfs_gcs_main_loop example_lfs_gcs_client [Decoded (JObj download_abc)]
                    example_world)))"
proof -
  have e: "map_of verify_abc ''event'' = Some (JStr ''verify'')"
    and n: "JStr ''verify'' \<noteq> JStr ''terminate''" "JStr ''verify'' \<noteq> JStr ''upload''"
      "JStr ''verify'' \<noteq> JStr ''download''"
    and o: "map_of verify_abc ''oid'' = Some (JStr ''abc'')"
    by (simp_all add: verify_abc_def)
  from unknown_event_reported [OF e n o] show ?thesis .
qed

section \<open>Leaving the loop, and failing before it\<close>

lemma agent_loop_terminate:
  assumes "map_of d ''event'' = Some (JStr ''terminate'')"
  shows "agent_loop client (pre @ Decoded (JObj d) # rest) w = agent_loop client pre w"
proof (induction pre arbitrary: w)
  case Nil
  from assms show ?case by simp
next
  case (Cons l pre)
  then show ?case
    by (simp split: sum.splits prod.splits)
qed

lemma lfs_gcs_main_loop_terminate:
  assumes "map_of d ''event'' = Some (JStr ''terminate'')"
  shows "lfs_gcs_main_loop client (pre @ Decoded (JObj d) # rest) w =
         lfs_gcs_main_loop client pre w"
proof (induction pre arbitrary: w)
  case Nil
  from assms show ?case by simp
next
  case (Cons l pre)
  then show ?case
    by (simp split: sum.splits prod.splits)
qed

lemma agent_terminate:
  assumes "map_of d ''event'' = Some (JStr ''terminate'')"
  shows "agent (first # pre @ Decoded (JObj d) # rest) w = agent (first # pre) w"
  by (simp add: agent_Cons agent_loop_terminate [OF assms] del: agent_loop.simps
      cong: option.case_cong sum.case_cong if_cong)

lemma lfs_gcs_main_terminate:
  assumes "map_of d ''event'' = Some (JStr ''terminate'')"
  shows "lfs_gcs_main (first # pre @ Decoded (JObj d) # rest) w = lfs_gcs_main (first # pre) w"
  by (simp add: lfs_gcs_main_Cons lfs_gcs_main_loop_terminate [OF assms]
      del: lfs_gcs_main_loop.simps cong: option.case_cong sum.case_cong if_cong)

text \<open>
  C7. After the handshake, a request whose event is \<^verbatim>\<open>terminate\<close> stops the loop at
  once, exactly as the end of the input does: the run over \<open>pre\<close>, the \<^verbatim>\<open>terminate\<close>
  request and anything after it is the run over \<open>pre\<close> alone (same output, same
  world, same result), for the loop and for the whole of \<^verbatim>\<open>agent\<close> and \<^verbatim>\<open>main\<close>.
  From any state, \<^verbatim>\<open>terminate\<close> and an empty input both print nothing and leave the
  loop without an exception. For the whole process, after a handshake that succeeds
  (the transport \<^verbatim>\<open>create\<close> builds then exists): with \<^verbatim>\<open>terminate\<close> as the first
  request, or no request at all, the output is the acknowledgement \<^verbatim>\<open>{}\<close> alone,
  the world is unchanged and the exit status is 0; with requests \<open>pre\<close> over which
  the loop ends without an exception, followed by \<^verbatim>\<open>terminate\<close> and anything else or
  by the end of the input, the output is the acknowledgement and what \<open>pre\<close>
  printed, nothing more, in the world \<open>pre\<close> left, and the exit status is 0. Both
  modules.
\<close>

theorem terminate_or_end_of_input_stops:
  assumes "map_of d ''event'' = Some (JStr ''terminate'')"
  shows
    "agent_loop client (pre @ Decoded (JObj d) # rest) w = agent_loop client pre w
     \<and> agent_loop client (Decoded (JObj d) # rest) w = ([], None, w)
     \<and> agent_loop client [] w = ([], None, w)
     \<and> agent (first # pre @ Decoded (JObj d) # rest) w = agent (first # pre) w
     \<and> lfs_gcs_main_loop client' (pre @ Decoded (JObj d) # rest) w =
         lfs_gcs_main_loop client' pre w
     \<and> lfs_gcs_main_loop client' (Decoded (JObj d) # rest) w = ([], None, w)
     \<and> lfs_gcs_main_loop client' [] w = ([], None, w)
     \<and> lfs_gcs_main (first # pre @ Decoded (JObj d) # rest) w = lfs_gcs_main (first # pre) w
     \<and> (handshake_ok first w \<longrightarrow>
          agent (first # Decoded (JObj d) # rest) w = ([JObj []], None, w)
          \<and> agent [first] w = ([JObj []], None, w)
          \<and> exit_status (agent (first # Decoded (JObj d) # rest) w) = 0
          \<and> exit_status (agent [first] w) = 0)
     \<and> (lfs_gcs_handshake_ok first w \<longrightarrow>
          lfs_gcs_main (first # Decoded (JObj d) # rest) w = ([JObj []], None, w)
          \<and> lfs_gcs_main [first] w = ([JObj []], None, w)
          \<and> exit_status (lfs_gcs_main (first # Decoded (JObj d) # rest) w) = 0
          \<and> exit_status (lfs_gcs_main [first] w) = 0)
     \<and> (handshake_ok first w \<and> create w = Inr client
          \<and> fst (snd (agent_loop client pre w)) = None \<longrightarrow>
          agent (first # pre @ Decoded (JObj d) # rest) w =
            (JObj [] # fst (agent_loop client pre w), None, snd (snd (agent_loop client pre w)))
          \<and> agent (first # pre) w =
            (JObj [] # fst (agent_loop client pre w), None, snd (snd (agent_loop client pre w)))
          \<and> exit_status (agent (first # pre @ Decoded (JObj d) # rest) w) = 0
          \<and> exit_status (agent (first # pre) w) = 0)
     \<and> (lfs_gcs_handshake_ok first w \<and> lfs_gcs_create w = Inr client'
          \<and> fst (snd (lfs_gcs_main_loop client' pre w)) = None \<longrightarrow>
          lfs_gcs_main (first # pre @ Decoded (JObj d) # rest) w =
            (JObj [] # fst (lfs_gcs_main_loop client' pre w), None,
             snd (snd (lfs_gcs_main_loop client' pre w)))
          \<and> lfs_gcs_main (first # pre) w =
            (JObj [] # fst (lfs_gcs_main_loop client' pre w), None,
             snd (snd (lfs_gcs_main_loop client' pre w)))
          \<and> exit_status (lfs_gcs_main (first # pre @ Decoded (JObj d) # rest) w) = 0
          \<and> exit_status (lfs_gcs_main (first # pre) w) = 0)
     \<and> (handshake_ok first w \<longrightarrow> (\<exists>c. create w = Inr c))
     \<and> (lfs_gcs_handshake_ok first w \<longrightarrow> (\<exists>c. lfs_gcs_create w = Inr c))"
proof -
  have ex: "\<exists>c. create w = Inr c" if ok: "handshake_ok first w"
    using agent_after_handshake [OF ok, of "[]"] by blast
  have ex': "\<exists>c. lfs_gcs_create w = Inr c" if ok: "lfs_gcs_handshake_ok first w"
    using lfs_gcs_main_after_handshake [OF ok, of "[]"] by blast
  have stop: "agent_loop c (Decoded (JObj d) # rest) w = ([], None, w)" for c
    using assms by simp
  have stop': "lfs_gcs_main_loop c (Decoded (JObj d) # rest) w = ([], None, w)" for c
    using assms by simp
  have same: "agent (first # ls @ Decoded (JObj d) # rest) w = agent (first # ls) w" for ls
    by (rule agent_terminate [OF assms])
  have same': "lfs_gcs_main (first # ls @ Decoded (JObj d) # rest) w = lfs_gcs_main (first # ls) w"
    for ls
    by (rule lfs_gcs_main_terminate [OF assms])
  have served: "agent (first # ls @ Decoded (JObj d) # rest) w =
            (JObj [] # fst (agent_loop client ls w), None, snd (snd (agent_loop client ls w)))
          \<and> agent (first # ls) w =
            (JObj [] # fst (agent_loop client ls w), None, snd (snd (agent_loop client ls w)))
          \<and> exit_status (agent (first # ls @ Decoded (JObj d) # rest) w) = 0
          \<and> exit_status (agent (first # ls) w) = 0"
    if ok: "handshake_ok first w" and c: "create w = Inr client"
      and n: "fst (snd (agent_loop client ls w)) = None" for ls
  proof -
    from agent_after_handshake [OF ok, of ls] c
    have "agent (first # ls) w = (JObj [] # fst (agent_loop client ls w),
        snd (agent_loop client ls w))"
      by simp
    with n have "agent (first # ls) w =
        (JObj [] # fst (agent_loop client ls w), None, snd (snd (agent_loop client ls w)))"
      by (cases "agent_loop client ls w") simp
    with same [of ls] show ?thesis by (simp add: exit_status_def)
  qed
  have served': "lfs_gcs_main (first # ls @ Decoded (JObj d) # rest) w =
            (JObj [] # fst (lfs_gcs_main_loop client' ls w), None,
             snd (snd (lfs_gcs_main_loop client' ls w)))
          \<and> lfs_gcs_main (first # ls) w =
            (JObj [] # fst (lfs_gcs_main_loop client' ls w), None,
             snd (snd (lfs_gcs_main_loop client' ls w)))
          \<and> exit_status (lfs_gcs_main (first # ls @ Decoded (JObj d) # rest) w) = 0
          \<and> exit_status (lfs_gcs_main (first # ls) w) = 0"
    if ok: "lfs_gcs_handshake_ok first w" and c: "lfs_gcs_create w = Inr client'"
      and n: "fst (snd (lfs_gcs_main_loop client' ls w)) = None" for ls
  proof -
    from lfs_gcs_main_after_handshake [OF ok, of ls] c
    have "lfs_gcs_main (first # ls) w = (JObj [] # fst (lfs_gcs_main_loop client' ls w),
        snd (lfs_gcs_main_loop client' ls w))"
      by simp
    with n have "lfs_gcs_main (first # ls) w =
        (JObj [] # fst (lfs_gcs_main_loop client' ls w), None,
         snd (snd (lfs_gcs_main_loop client' ls w)))"
      by (cases "lfs_gcs_main_loop client' ls w") simp
    with same' [of ls] show ?thesis by (simp add: exit_status_def)
  qed
  have none: "agent (first # Decoded (JObj d) # rest) w = ([JObj []], None, w)
          \<and> agent [first] w = ([JObj []], None, w)
          \<and> exit_status (agent (first # Decoded (JObj d) # rest) w) = 0
          \<and> exit_status (agent [first] w) = 0"
    if ok: "handshake_ok first w"
  proof -
    from agent_after_handshake [OF ok, of "[]"]
    have "agent [first] w = ([JObj []], None, w)" by auto
    with same [of "[]"] show ?thesis by (simp add: exit_status_def)
  qed
  have none': "lfs_gcs_main (first # Decoded (JObj d) # rest) w = ([JObj []], None, w)
          \<and> lfs_gcs_main [first] w = ([JObj []], None, w)
          \<and> exit_status (lfs_gcs_main (first # Decoded (JObj d) # rest) w) = 0
          \<and> exit_status (lfs_gcs_main [first] w) = 0"
    if ok: "lfs_gcs_handshake_ok first w"
  proof -
    from lfs_gcs_main_after_handshake [OF ok, of "[]"]
    have "lfs_gcs_main [first] w = ([JObj []], None, w)" by auto
    with same' [of "[]"] show ?thesis by (simp add: exit_status_def)
  qed
  have "agent_loop client [] w = ([], None, w)" "lfs_gcs_main_loop client' [] w = ([], None, w)"
    by simp_all
  with stop [of client] stop' [of client'] same [of pre] same' [of pre]
    agent_loop_terminate [OF assms, of client pre rest w]
    lfs_gcs_main_loop_terminate [OF assms, of client' pre rest w]
    none none' served [of pre] served' [of pre] ex ex'
  show ?thesis by blast
qed

theorem terminate_or_end_of_input_stops_witness:
  "agent [init_line, Decoded (JObj download_abc), Decoded terminate_request,
          Decoded (JObj download_abc)] example_world =
     agent [init_line, Decoded (JObj download_abc)] example_world
   \<and> lfs_gcs_main [init_line, Decoded (JObj download_abc), Decoded terminate_request,
          Decoded (JObj download_abc)] example_world =
     lfs_gcs_main [init_line, Decoded (JObj download_abc)] example_world
   \<and> agent_loop example_client [Decoded terminate_request, Decoded (JObj download_abc)]
       example_world = ([], None, example_world)
   \<and> handshake_ok init_line example_world
   \<and> lfs_gcs_handshake_ok init_line example_world
   \<and> fst (agent [init_line, Decoded (JObj download_abc), Decoded terminate_request,
          Decoded (JObj download_abc)] example_world) =
       [JObj [], progress ''abc'' 3 3,
        complete_download ''abc'' ''/repo/lfs-download-abc.tmp'']
   \<and> exit_status (agent [init_line, Decoded (JObj download_abc), Decoded terminate_request,
          Decoded (JObj download_abc)] example_world) = 0
   \<and> exit_status (agent [init_line, Decoded (JObj download_abc)] example_world) = 0
   \<and> fst (lfs_gcs_main [init_line, Decoded (JObj download_abc), Decoded terminate_request,
          Decoded (JObj download_abc)] example_world) =
       [JObj [], progress ''abc'' 3 3,
        complete_download ''abc'' ''/repo/lfs-download-abc.tmp'']
   \<and> exit_status (lfs_gcs_main [init_line, Decoded (JObj download_abc),
          Decoded terminate_request, Decoded (JObj download_abc)] example_world) = 0
   \<and> exit_status (lfs_gcs_main [init_line, Decoded (JObj download_abc)] example_world) = 0
   \<and> agent [init_line, Decoded terminate_request, Decoded (JObj download_abc)] example_world =
       ([JObj []], None, example_world)
   \<and> agent [init_line] example_world = ([JObj []], None, example_world)
   \<and> lfs_gcs_main [init_line, Decoded terminate_request, Decoded (JObj download_abc)]
       example_world = ([JObj []], None, example_world)
   \<and> lfs_gcs_main [init_line] example_world = ([JObj []], None, example_world)"
proof -
  have t: "map_of [(''event'', JStr ''terminate'')] ''event'' = Some (JStr ''terminate'')"
    by simp
  from terminate_or_end_of_input_stops [OF t, of example_client "[Decoded (JObj download_abc)]"
      "[Decoded (JObj download_abc)]" example_world init_line example_lfs_gcs_client]
    handshake_ok_example lfs_gcs_handshake_ok_example create_example lfs_gcs_create_example
    download_abc_run
  show ?thesis
    by (simp add: terminate_request_def exit_status_def
        del: agent_loop.simps lfs_gcs_main_loop.simps)
qed

lemma agent_fatal:
  assumes "stdin = [] \<or> (\<exists>rest. stdin = Malformed # rest)
     \<or> (\<exists>j rest. stdin = Decoded j # rest \<and> subscript j ''event'' \<noteq> Inr (JStr ''init''))
     \<or> config_option ''lfs.url'' w = None"
  shows "\<exists>e. agent stdin w = ([], Some e, w)"
  using assms
proof (elim disjE exE conjE)
  assume "stdin = []"
  then show ?thesis by (simp add: agent_def readline_def split: option.splits)
next
  fix rest
  assume "stdin = Malformed # rest"
  then show ?thesis by (simp add: agent_Cons split: option.splits)
next
  fix j rest
  assume "stdin = Decoded j # rest" and "subscript j ''event'' \<noteq> Inr (JStr ''init'')"
  then show ?thesis
    by (cases "subscript j ''event''") (auto simp: agent_Cons split: option.splits)
next
  assume u: "config_option ''lfs.url'' w = None"
  show ?thesis
  proof (cases stdin)
    case Nil
    then show ?thesis by (simp add: agent_def readline_def split: option.splits)
  next
    case (Cons l ls)
    with u show ?thesis
      by (cases l) (auto simp: agent_Cons create_def split: sum.splits option.splits)
  qed
qed

lemma lfs_gcs_main_fatal:
  assumes "stdin = [] \<or> (\<exists>rest. stdin = Malformed # rest)
     \<or> (\<exists>j rest. stdin = Decoded j # rest \<and> subscript j ''event'' \<noteq> Inr (JStr ''init''))
     \<or> config_option ''lfs.url'' w = None"
  shows "\<exists>e. lfs_gcs_main stdin w = ([], Some e, w)"
  using assms
proof (elim disjE exE conjE)
  assume "stdin = []"
  then show ?thesis by (simp add: lfs_gcs_main_def readline_def split: option.splits)
next
  fix rest
  assume "stdin = Malformed # rest"
  then show ?thesis by (simp add: lfs_gcs_main_Cons split: option.splits)
next
  fix j rest
  assume "stdin = Decoded j # rest" and "subscript j ''event'' \<noteq> Inr (JStr ''init'')"
  then show ?thesis
    by (cases "subscript j ''event''") (auto simp: lfs_gcs_main_Cons split: option.splits)
next
  assume u: "config_option ''lfs.url'' w = None"
  show ?thesis
  proof (cases stdin)
    case Nil
    then show ?thesis by (simp add: lfs_gcs_main_def readline_def split: option.splits)
  next
    case (Cons l ls)
    with u show ?thesis
      by (cases l)
        (auto simp: lfs_gcs_main_Cons lfs_gcs_create_def Let_def split: sum.splits option.splits)
  qed
qed

text \<open>
  C6. When the first line is missing, is not valid JSON, has no \<^verbatim>\<open>event\<close> equal to
  \<^verbatim>\<open>"init"\<close> (assertions are on, as they are by default), or when no \<^verbatim>\<open>lfs.url\<close>
  is configured, \<^verbatim>\<open>agent\<close> and \<^verbatim>\<open>main\<close> end by an exception with nothing printed:
  neither the acknowledgement \<^verbatim>\<open>{}\<close> nor a \<^verbatim>\<open>complete\<close> event. The world is
  untouched and the exit status is 1.
\<close>

theorem handshake_or_configuration_failure_is_fatal:
  assumes "stdin = [] \<or> (\<exists>rest. stdin = Malformed # rest)
     \<or> (\<exists>j rest. stdin = Decoded j # rest \<and> subscript j ''event'' \<noteq> Inr (JStr ''init''))
     \<or> config_option ''lfs.url'' w = None"
  shows "(\<exists>e. agent stdin w = ([], Some e, w)) \<and> exit_status (agent stdin w) = 1
     \<and> (\<exists>e. lfs_gcs_main stdin w = ([], Some e, w)) \<and> exit_status (lfs_gcs_main stdin w) = 1"
proof -
  from agent_fatal [OF assms] obtain e where a: "agent stdin w = ([], Some e, w)" ..
  from lfs_gcs_main_fatal [OF assms] obtain e' where
    b: "lfs_gcs_main stdin w = ([], Some e', w)" ..
  from a b show ?thesis by (simp add: exit_status_def)
qed

lemma unconfigured: "config_option ''lfs.url'' unconfigured_world = None"
  by (simp add: config_option_def unconfigured_world_def strip_def isspace_def)

theorem handshake_or_configuration_failure_is_fatal_witness:
  "((\<exists>e. agent [] example_world = ([], Some e, example_world))
      \<and> exit_status (agent [] example_world) = 1
      \<and> (\<exists>e. lfs_gcs_main [] example_world = ([], Some e, example_world))
      \<and> exit_status (lfs_gcs_main [] example_world) = 1)
   \<and> ((\<exists>e. agent [Decoded (JObj download_abc)] example_world = ([], Some e, example_world))
      \<and> exit_status (agent [Decoded (JObj download_abc)] example_world) = 1
      \<and> (\<exists>e. lfs_gcs_main [Decoded (JObj download_abc)] example_world =
            ([], Some e, example_world))
      \<and> exit_status (lfs_gcs_main [Decoded (JObj download_abc)] example_world) = 1)
   \<and> ((\<exists>e. agent [init_line] unconfigured_world = ([], Some e, unconfigured_world))
      \<and> exit_status (agent [init_line] unconfigured_world) = 1
      \<and> (\<exists>e. lfs_gcs_main [init_line] unconfigured_world = ([], Some e, unconfigured_world))
      \<and> exit_status (lfs_gcs_main [init_line] unconfigured_world) = 1)
   \<and> ((\<exists>e. agent [Malformed, init_line] example_world = ([], Some e, example_world))
      \<and> exit_status (agent [Malformed, init_line] example_world) = 1
      \<and> (\<exists>e. lfs_gcs_main [Malformed, init_line] example_world =
            ([], Some e, example_world))
      \<and> exit_status (lfs_gcs_main [Malformed, init_line] example_world) = 1)"
proof -
  have 4: "[Malformed, init_line] = [] \<or> (\<exists>rest. [Malformed, init_line] = Malformed # rest)
     \<or> (\<exists>j rest. [Malformed, init_line] = Decoded j # rest
          \<and> subscript j ''event'' \<noteq> Inr (JStr ''init''))
     \<or> config_option ''lfs.url'' example_world = None"
    by simp
  have 1: "([]::line list) = [] \<or> (\<exists>rest. ([]::line list) = Malformed # rest)
     \<or> (\<exists>j rest. ([]::line list) = Decoded j # rest
          \<and> subscript j ''event'' \<noteq> Inr (JStr ''init''))
     \<or> config_option ''lfs.url'' example_world = None"
    by simp
  have 2: "[Decoded (JObj download_abc)] = [] \<or> (\<exists>rest. [Decoded (JObj download_abc)] = Malformed # rest)
     \<or> (\<exists>j rest. [Decoded (JObj download_abc)] = Decoded j # rest
          \<and> subscript j ''event'' \<noteq> Inr (JStr ''init''))
     \<or> config_option ''lfs.url'' example_world = None"
    by (simp add: download_abc_def)
  have 3: "[init_line] = [] \<or> (\<exists>rest. [init_line] = Malformed # rest)
     \<or> (\<exists>j rest. [init_line] = Decoded j # rest
          \<and> subscript j ''event'' \<noteq> Inr (JStr ''init''))
     \<or> config_option ''lfs.url'' unconfigured_world = None"
    using unconfigured by simp
  from handshake_or_configuration_failure_is_fatal [OF 1]
    handshake_or_configuration_failure_is_fatal [OF 2]
    handshake_or_configuration_failure_is_fatal [OF 3]
    handshake_or_configuration_failure_is_fatal [OF 4]
  show ?thesis by blast
qed

section \<open>Transfers in which no call fails\<close>

lemma next_fault_none: "faults w = [] \<Longrightarrow> next_fault w = (None, w)"
  by (simp add: next_fault_def)

lemma chunks_0 [simp]: "chunks 0 = 0"
  by (simp add: chunks_def CHUNK_SIZE_def MB_def)

lemma CHUNK_SIZE_pos: "0 < CHUNK_SIZE"
  by (simp add: CHUNK_SIZE_def MB_def)

lemma ceil_step:
  fixes n c :: nat
  assumes "0 < c" and "0 < n"
  shows "(n + c - 1) div c = Suc ((n - c + c - 1) div c)"
proof (cases "n \<le> c")
  case True
  with assms have "(n + c - 1) div c = 1"
    by (intro div_nat_eqI) auto
  moreover from True assms have "(n - c + c - 1) div c = 0" by simp
  ultimately show ?thesis by simp
next
  case False
  then have "n + c - 1 = (n - c + c - 1) + c" by simp
  then have "(n + c - 1) div c = ((n - c + c - 1) + c) div c" by simp
  also have "\<dots> = (n - c + c - 1) div c + 1"
    using assms(1) by (intro div_add_self2) simp
  finally show ?thesis by simp
qed

lemma chunks_step: "0 < n \<Longrightarrow> chunks n = Suc (chunks (n - CHUNK_SIZE))"
  unfolding chunks_def by (rule ceil_step [OF CHUNK_SIZE_pos])

lemma sink_write_no_fault:
  assumes "faults w = []"
  shows "fst (sink_write dst chunk w) = None"
    and "faults (snd (sink_write dst chunk w)) = []"
    and "cwd (snd (sink_write dst chunk w)) = cwd w"
    and "sink_contents dst w = Some old \<Longrightarrow>
         sink_contents dst (snd (sink_write dst chunk w)) = Some (old @ chunk)"
  using assms
  by (cases dst; simp add: next_fault_none sink_contents_def append_to_def absolute_def)+

lemma transfer_loop_no_fault_unfold:
  assumes "faults w = []"
  shows "transfer_loop oid src dst tot w =
     (if src = [] then ([], None, w)
      else
        (case transfer_loop oid (drop CHUNK_SIZE src) dst (tot + length (take CHUNK_SIZE src))
                (snd (sink_write dst (take CHUNK_SIZE src) w)) of
           (evs, r, w3) \<Rightarrow>
             (progress oid (tot + length (take CHUNK_SIZE src)) (length (take CHUNK_SIZE src))
                # evs, r, w3)))"
proof -
  have c: "0 < CHUNK_SIZE" by (rule CHUNK_SIZE_pos)
  obtain w2 where w2: "sink_write dst (take CHUNK_SIZE src) w = (None, w2)"
    using sink_write_no_fault(1) [OF assms, of dst "take CHUNK_SIZE src"]
    by (cases "sink_write dst (take CHUNK_SIZE src) w") auto
  show ?thesis
    using c w2
    by (subst transfer_loop.simps)
      (simp add: stream_read_def next_fault_none [OF assms] split: prod.splits)
qed

lemma transfer_loop_no_faults:
  assumes "faults w = []"
  shows "\<exists>evs w'. transfer_loop oid src dst tot w = (evs, None, w')
     \<and> faults w' = [] \<and> cwd w' = cwd w
     \<and> length evs = chunks (length src)
     \<and> (src \<noteq> [] \<longrightarrow> field (last evs) ''bytesSoFar'' = Some (JInt (int (tot + length src))))
     \<and> (\<forall>old. sink_contents dst w = Some old \<longrightarrow> sink_contents dst w' = Some (old @ src))"
  using assms
proof (induction src arbitrary: tot w rule: length_induct)
  case (1 src)
  show ?case
  proof (cases "src = []")
    case True
    with "1.prems" show ?thesis
      by (simp add: transfer_loop_no_fault_unfold)
  next
    case False
    let ?chunk = "take CHUNK_SIZE src"
    let ?rest = "drop CHUNK_SIZE src"
    let ?w2 = "snd (sink_write dst ?chunk w)"
    have c: "0 < CHUNK_SIZE" by (rule CHUNK_SIZE_pos)
    from False c have shorter: "length ?rest < length src" by simp
    have f2: "faults ?w2 = []" by (rule sink_write_no_fault(2) [OF "1.prems"])
    from "1.IH" shorter f2 obtain evs w' where
      run: "transfer_loop oid ?rest dst (tot + length ?chunk) ?w2 = (evs, None, w')"
      and f': "faults w' = []" and cwd': "cwd w' = cwd ?w2"
      and len: "length evs = chunks (length ?rest)"
      and lst: "?rest \<noteq> [] \<longrightarrow>
         field (last evs) ''bytesSoFar'' = Some (JInt (int (tot + length ?chunk + length ?rest)))"
      and cont: "\<forall>old. sink_contents dst ?w2 = Some old \<longrightarrow>
         sink_contents dst w' = Some (old @ ?rest)"
      by blast
    have eq: "transfer_loop oid src dst tot w =
        (progress oid (tot + length ?chunk) (length ?chunk) # evs, None, w')"
      using False run by (simp add: transfer_loop_no_fault_unfold [OF "1.prems"])
    have total_len: "length ?chunk + length ?rest = length src"
      by simp
    have "length (progress oid (tot + length ?chunk) (length ?chunk) # evs) = chunks (length src)"
      using len False chunks_step [of "length src"] by simp
    moreover have "field (last (progress oid (tot + length ?chunk) (length ?chunk) # evs))
        ''bytesSoFar'' = Some (JInt (int (tot + length src)))"
    proof (cases "?rest = []")
      case True
      with len have "evs = []" by simp
      moreover from True have "length ?chunk = length src" by simp
      ultimately show ?thesis by (simp add: field_def progress_def)
    next
      case nonempty: False
      with len chunks_step [of "length ?rest"] have "evs \<noteq> []" by auto
      with nonempty lst total_len show ?thesis
        by (simp add: add.assoc del: length_take length_drop)
    qed
    moreover have "\<forall>old. sink_contents dst w = Some old \<longrightarrow>
        sink_contents dst w' = Some (old @ src)"
    proof (intro allI impI)
      fix old
      assume "sink_contents dst w = Some old"
      then have "sink_contents dst ?w2 = Some (old @ ?chunk)"
        by (rule sink_write_no_fault(4) [OF "1.prems"])
      with cont have "sink_contents dst w' = Some ((old @ ?chunk) @ ?rest)" by blast
      then show "sink_contents dst w' = Some (old @ src)" by simp
    qed
    moreover have "cwd w' = cwd w"
      using cwd' sink_write_no_fault(3) [OF "1.prems", of dst ?chunk] by simp
    ultimately show ?thesis using eq f' by blast
  qed
qed

lemma transfer_no_faults:
  assumes "faults w = []"
  shows "\<exists>evs w'. transfer oid src dst w = (evs, None, w')
     \<and> faults w' = [] \<and> cwd w' = cwd w \<and> list_all is_progress evs
     \<and> length evs = chunks (length src)
     \<and> (src \<noteq> [] \<longrightarrow> field (last evs) ''bytesSoFar'' = Some (JInt (int (length src))))
     \<and> (\<forall>old. sink_contents dst w = Some old \<longrightarrow> sink_contents dst w' = Some (old @ src))"
proof -
  from transfer_loop_no_faults [OF assms, of oid src dst 0]
  obtain evs w' where t: "transfer_loop oid src dst 0 w = (evs, None, w')"
    and rest: "faults w' = []" "cwd w' = cwd w" "length evs = chunks (length src)"
      "src \<noteq> [] \<longrightarrow> field (last evs) ''bytesSoFar'' = Some (JInt (int (0 + length src)))"
      "\<forall>old. sink_contents dst w = Some old \<longrightarrow> sink_contents dst w' = Some (old @ src)"
    by blast
  from t have "list_all is_progress evs" by (rule transfer_loop_progress)
  with t rest show ?thesis by (simp add: transfer_def)
qed

lemma download_no_faults:
  assumes "faults w = []" and "blobs w (join (url client) oid) = Some bs"
  shows "\<exists>evs w'. download client (JStr oid) sz a w =
        (evs @ [complete_download oid (absolute w (''lfs-download-'' @ oid @ ''.tmp''))], None, w')
     \<and> faults w' = [] \<and> list_all is_progress evs \<and> length evs = chunks (length bs)
     \<and> (bs \<noteq> [] \<longrightarrow> field (last evs) ''bytesSoFar'' = Some (JInt (int (length bs))))
     \<and> file_contents w' (absolute w (''lfs-download-'' @ oid @ ''.tmp'')) = Some bs"
proof -
  let ?p = "absolute w (''lfs-download-'' @ oid @ ''.tmp'')"
  let ?w1 = "w\<lparr>files := (files w)(absolute w ?p \<mapsto> [])\<rparr>"
  have f1: "faults ?w1 = []" using assms(1) by simp
  have s1: "sink_contents (FileSink ?p) ?w1 = Some []"
    by (simp add: sink_contents_def absolute_def)
  from transfer_no_faults [OF f1, of oid bs "FileSink ?p"] s1
  obtain evs w' where t: "transfer oid bs (FileSink ?p) ?w1 = (evs, None, w')"
    and f': "faults w' = []" and c': "cwd w' = cwd ?w1" and p: "list_all is_progress evs"
    and len: "length evs = chunks (length bs)"
    and lst: "bs \<noteq> [] \<longrightarrow> field (last evs) ''bytesSoFar'' = Some (JInt (int (length bs)))"
    and cont: "sink_contents (FileSink ?p) w' = Some ([] @ bs)"
    by blast
  have o: "open_auto_cleanup ?p (transfer oid bs) w = (evs, None, w')"
    using t f' assms(1)
    by (simp add: open_auto_cleanup_def file_open_wb_def with_sink_def sink_close_def
        next_fault_none)
  have "download client (JStr oid) sz a w = (evs @ [complete_download oid ?p], None, w')"
    using assms o
    by (simp add: download_def blob_open_rb_def next_fault_none Let_def)
  moreover from cont c' have "file_contents w' ?p = Some bs"
    by (simp add: sink_contents_def file_contents_def absolute_def)
  ultimately show ?thesis using f' p len lst by blast
qed

lemma upload_no_faults:
  assumes "faults w = []" and "file_contents w path = Some bs"
  shows "\<exists>evs w'. upload client (JStr oid) (JStr path) sz a w =
        (evs @ [complete_upload oid], None, w')
     \<and> faults w' = [] \<and> cwd w' = cwd w \<and> list_all is_progress evs
     \<and> length evs = chunks (length bs)
     \<and> (bs \<noteq> [] \<longrightarrow> field (last evs) ''bytesSoFar'' = Some (JInt (int (length bs))))
     \<and> blobs w' (join (url client) oid) = Some bs"
proof -
  let ?uri = "join (url client) oid"
  let ?w1 = "w\<lparr>blobs := (blobs w)(?uri \<mapsto> [])\<rparr>"
  have f1: "faults ?w1 = []" using assms(1) by simp
  have s1: "sink_contents (BlobSink ?uri) ?w1 = Some []"
    by (simp add: sink_contents_def)
  from transfer_no_faults [OF f1, of oid bs "BlobSink ?uri"] s1
  obtain evs w' where t: "transfer oid bs (BlobSink ?uri) ?w1 = (evs, None, w')"
    and f': "faults w' = []" and c': "cwd w' = cwd ?w1" and p: "list_all is_progress evs"
    and len: "length evs = chunks (length bs)"
    and lst: "bs \<noteq> [] \<longrightarrow> field (last evs) ''bytesSoFar'' = Some (JInt (int (length bs)))"
    and cont: "sink_contents (BlobSink ?uri) w' = Some ([] @ bs)"
    by blast
  have "upload client (JStr oid) (JStr path) sz a w = (evs @ [complete_upload oid], None, w')"
    using assms t f'
    by (simp add: upload_def open_rb_def file_open_rb_def blob_open_wb_def next_fault_none
        Let_def with_sink_def sink_close_def file_contents_def)
  moreover from cont have "blobs w' ?uri = Some bs"
    by (simp add: sink_contents_def)
  ultimately show ?thesis using f' c' p len lst by auto
qed

text \<open>
  C5. A transfer in which no call fails, from a source of \<open>N\<close> bytes, yields exactly
  \<open>N\<close> over \<open>CHUNK_SIZE\<close> (4 MiB) rounded up progress events and ends normally; for
  \<open>N = 0\<close> it yields none; otherwise the last one has \<^verbatim>\<open>bytesSoFar\<close> equal to \<open>N\<close>.
  A download of a stored object of \<open>N\<close> bytes and an upload of a file of \<open>N\<close> bytes
  yield these progress events and then the \<^verbatim>\<open>complete\<close> event, also for \<open>N = 0\<close>.
\<close>

theorem progress_events_per_chunk:
  assumes "faults w = []"
  shows
    "(\<exists>evs w'. transfer oid src dst w = (evs, None, w') \<and> list_all is_progress evs
        \<and> length evs = (length src + CHUNK_SIZE - 1) div CHUNK_SIZE
        \<and> (src = [] \<longrightarrow> evs = [])
        \<and> (src \<noteq> [] \<longrightarrow> field (last evs) ''bytesSoFar'' = Some (JInt (int (length src)))))
     \<and> (blobs w (join (url client) oid) = Some src \<longrightarrow>
          (\<exists>evs w'. download client (JStr oid) sz a w =
             (evs @ [complete_download oid (absolute w (''lfs-download-'' @ oid @ ''.tmp''))],
              None, w')
           \<and> list_all is_progress evs
           \<and> length evs = (length src + CHUNK_SIZE - 1) div CHUNK_SIZE
           \<and> (src \<noteq> [] \<longrightarrow>
                field (last evs) ''bytesSoFar'' = Some (JInt (int (length src))))))
     \<and> (file_contents w path = Some src \<longrightarrow>
          (\<exists>evs w'. upload client (JStr oid) (JStr path) sz a w =
             (evs @ [complete_upload oid], None, w')
           \<and> list_all is_progress evs
           \<and> length evs = (length src + CHUNK_SIZE - 1) div CHUNK_SIZE
           \<and> (src \<noteq> [] \<longrightarrow>
                field (last evs) ''bytesSoFar'' = Some (JInt (int (length src))))))
     \<and> CHUNK_SIZE = 4 * 1024 * 1024"
proof -
  from transfer_no_faults [OF assms, of oid src dst]
  obtain evs w' where t: "transfer oid src dst w = (evs, None, w')" "list_all is_progress evs"
    "src \<noteq> [] \<longrightarrow> field (last evs) ''bytesSoFar'' = Some (JInt (int (length src)))"
    and len: "length evs = chunks (length src)"
    by blast
  from len have "src = [] \<longrightarrow> evs = []" by auto
  moreover from len have "length evs = (length src + CHUNK_SIZE - 1) div CHUNK_SIZE"
    unfolding chunks_def .
  ultimately have 1: "\<exists>evs w'. transfer oid src dst w = (evs, None, w') \<and> list_all is_progress evs
        \<and> length evs = (length src + CHUNK_SIZE - 1) div CHUNK_SIZE
        \<and> (src = [] \<longrightarrow> evs = [])
        \<and> (src \<noteq> [] \<longrightarrow> field (last evs) ''bytesSoFar'' = Some (JInt (int (length src))))"
    using t by blast
  have 2: "\<exists>evs w'. download client (JStr oid) sz a w =
             (evs @ [complete_download oid (absolute w (''lfs-download-'' @ oid @ ''.tmp''))],
              None, w')
           \<and> list_all is_progress evs
           \<and> length evs = (length src + CHUNK_SIZE - 1) div CHUNK_SIZE
           \<and> (src \<noteq> [] \<longrightarrow>
                field (last evs) ''bytesSoFar'' = Some (JInt (int (length src))))"
    if "blobs w (join (url client) oid) = Some src"
    using download_no_faults [OF assms that, of sz a] unfolding chunks_def by blast
  have 3: "\<exists>evs w'. upload client (JStr oid) (JStr path) sz a w =
             (evs @ [complete_upload oid], None, w')
           \<and> list_all is_progress evs
           \<and> length evs = (length src + CHUNK_SIZE - 1) div CHUNK_SIZE
           \<and> (src \<noteq> [] \<longrightarrow>
                field (last evs) ''bytesSoFar'' = Some (JInt (int (length src))))"
    if "file_contents w path = Some src"
    using upload_no_faults [OF assms that, of client oid sz a] unfolding chunks_def by blast
  have 4: "CHUNK_SIZE = 4 * 1024 * 1024"
    by (simp add: CHUNK_SIZE_def MB_def)
  from 1 2 3 4 show ?thesis by blast
qed

theorem progress_events_per_chunk_witness:
  "faults example_world = []
   \<and> blobs example_world (join (url example_client) ''abc'') = Some [120, 121, 122]
   \<and> (\<exists>evs w'. download example_client (JStr ''abc'') (JInt 3) JNull example_world =
         (evs @ [complete_download ''abc''
                   (absolute example_world (''lfs-download-'' @ ''abc'' @ ''.tmp''))],
          None, w')
       \<and> list_all is_progress evs
       \<and> length evs = (length [120, 121, 122 :: 8 word] + CHUNK_SIZE - 1) div CHUNK_SIZE
       \<and> field (last evs) ''bytesSoFar'' = Some (JInt 3))
   \<and> (length [120, 121, 122 :: 8 word] + CHUNK_SIZE - 1) div CHUNK_SIZE = 1"
proof -
  have f: "faults example_world = []"
    by (simp add: example_world_def)
  have b: "blobs example_world (join (url example_client) ''abc'') = Some [120, 121, 122]"
    by (simp add: example_world_def example_client_def join_def)
  have c: "(length [120, 121, 122 :: 8 word] + CHUNK_SIZE - 1) div CHUNK_SIZE = 1"
    by (simp add: CHUNK_SIZE_def MB_def)
  from progress_events_per_chunk [OF f, of "''abc''" "[120, 121, 122]" "FileSink ''x''"
      example_client "JInt 3" JNull "''a.bin''"] b
  have "\<exists>evs w'. download example_client (JStr ''abc'') (JInt 3) JNull example_world =
         (evs @ [complete_download ''abc''
                   (absolute example_world (''lfs-download-'' @ ''abc'' @ ''.tmp''))],
          None, w')
       \<and> list_all is_progress evs
       \<and> length evs = (length [120, 121, 122 :: 8 word] + CHUNK_SIZE - 1) div CHUNK_SIZE
       \<and> field (last evs) ''bytesSoFar'' = Some (JInt 3)"
    by simp
  with f b c show ?thesis by blast
qed

text \<open>
  C2. Round trip. With a backend that stores what is written and no failing call: the
  upload of a local file holding the bytes \<open>bs\<close> under \<open>oid\<close>, followed by the
  download of \<open>oid\<close>, ends normally both times, and the file at the path that the
  download reports holds exactly \<open>bs\<close>.
\<close>

theorem round_trip:
  assumes "faults w = []" and "file_contents w path = Some bs"
  shows "\<exists>evs1 w1 evs2 w2.
      upload client (JStr oid) (JStr path) sz a w = (evs1 @ [complete_upload oid], None, w1)
      \<and> download client (JStr oid) sz' a' w1 =
          (evs2 @ [complete_download oid (absolute w (''lfs-download-'' @ oid @ ''.tmp''))],
           None, w2)
      \<and> file_contents w2 (absolute w (''lfs-download-'' @ oid @ ''.tmp'')) = Some bs"
proof -
  from upload_no_faults [OF assms, of client oid sz a]
  obtain evs1 w1 where
    u: "upload client (JStr oid) (JStr path) sz a w = (evs1 @ [complete_upload oid], None, w1)"
    and f1: "faults w1 = []" and c1: "cwd w1 = cwd w"
    and b1: "blobs w1 (join (url client) oid) = Some bs"
    by blast
  from download_no_faults [OF f1 b1, of sz' a']
  obtain evs2 w2 where
    d: "download client (JStr oid) sz' a' w1 =
          (evs2 @ [complete_download oid (absolute w1 (''lfs-download-'' @ oid @ ''.tmp''))],
           None, w2)"
    and c: "file_contents w2 (absolute w1 (''lfs-download-'' @ oid @ ''.tmp'')) = Some bs"
    by blast
  from c1 have "absolute w1 (''lfs-download-'' @ oid @ ''.tmp'') =
      absolute w (''lfs-download-'' @ oid @ ''.tmp'')"
    by (simp add: absolute_def)
  with u d c show ?thesis by auto
qed

theorem round_trip_witness:
  "faults example_world = [] \<and> file_contents example_world ''a.bin'' = Some [1, 2, 3]
   \<and> (\<exists>evs1 w1 evs2 w2.
      upload example_client (JStr ''abc'') (JStr ''a.bin'') (JInt 3) JNull example_world =
        (evs1 @ [complete_upload ''abc''], None, w1)
      \<and> download example_client (JStr ''abc'') (JInt 3) JNull w1 =
          (evs2 @ [complete_download ''abc''
                     (absolute example_world (''lfs-download-'' @ ''abc'' @ ''.tmp''))],
           None, w2)
      \<and> file_contents w2 (absolute example_world (''lfs-download-'' @ ''abc'' @ ''.tmp'')) =
          Some [1, 2, 3])"
proof -
  have f: "faults example_world = []"
    by (simp add: example_world_def)
  have c: "file_contents example_world ''a.bin'' = Some [1, 2, 3]"
    by (simp add: example_world_def file_contents_def absolute_def join_def)
  from f c round_trip [OF f c] show ?thesis by blast
qed

section \<open>A download that fails partway\<close>

lemma open_auto_cleanup_failure:
  assumes "open_auto_cleanup p body w = (evs, Some e, w')"
  shows "file_contents w' p = None"
  using assms
  by (auto simp: open_auto_cleanup_def unlink_def file_contents_def absolute_def
      split: prod.splits option.splits)

lemma download_failure_leaves_no_file:
  assumes "download client (JStr oid) sz a w = (evs, Some e, w')"
  shows "fst (blob_open_rb (join (url client) oid) w) = Inl e
         \<or> file_contents w' (absolute w (''lfs-download-'' @ oid @ ''.tmp'')) = None"
  using assms
  by (auto simp: download_def Let_def split: prod.splits sum.splits option.splits
      dest: open_auto_cleanup_failure)

text \<open>
  C4. A download that fails partway is to leave no temporary destination file.
  \<^verbatim>\<open>download\<close> of \<^verbatim>\<open>git_lfs_gcs.py\<close> meets this through \<^verbatim>\<open>open_auto_cleanup\<close>
  (the two lemmas above): once the backend stream is open, a failure ends with no file
  at the destination path. \<^verbatim>\<open>download\<close> of \<^verbatim>\<open>lfs_gcs.py\<close> opens the destination
  with a plain \<^verbatim>\<open>open\<close> and removes nothing. Here both loops serve the same download of
  \<^verbatim>\<open>abc\<close> in a world where the second read of the backend stream fails: both print
  one progress event and the \<^verbatim>\<open>complete\<close> event with the error, but \<^verbatim>\<open>lfs_gcs.py\<close>
  leaves \<^verbatim>\<open>/repo/lfs-download-abc.tmp\<close> on disk, holding the three bytes written,
  where \<^verbatim>\<open>git_lfs_gcs.py\<close> leaves no file.
\<close>

theorem lfs_gcs_download_leaves_file_on_failure:
  "fst (lfs_gcs_main_loop example_lfs_gcs_client [Decoded (JObj download_abc)] failing_world) =
     [progress ''abc'' 3 3, complete_error (JStr ''abc'') (StorageError ''connection reset'')]
   \<and> file_contents
       (snd (snd (lfs_gcs_main_loop example_lfs_gcs_client [Decoded (JObj download_abc)]
                    failing_world)))
       ''/repo/lfs-download-abc.tmp'' = Some [120, 121, 122]
   \<and> fst (agent_loop example_client [Decoded (JObj download_abc)] failing_world) =
     [progress ''abc'' 3 3, complete_error (JStr ''abc'') (StorageError ''connection reset'')]
   \<and> file_contents
       (snd (snd (agent_loop example_client [Decoded (JObj download_abc)] failing_world)))
       ''/repo/lfs-download-abc.tmp'' = None"
  by (simp add: download_abc_def lfs_gcs_handle_request_def lfs_gcs_getattr_call_def
      lfs_gcs_call_download_def lfs_gcs_download_def handle_request_def getattr_call_def
      call_download_def bind_error_def arg_def download_def open_auto_cleanup_def unlink_def
      example_lfs_gcs_client_def example_client_def failing_world_def example_world_def
      blob_open_rb_def file_open_wb_def with_sink_def sink_close_def next_fault_def
      transfer_def transfer_loop.simps stream_read_def append_to_def CHUNK_SIZE_def MB_def
      absolute_def join_def file_contents_def Let_def progress_def)

section \<open>Leftover fields of a request\<close>

lemma bind_error_unexpected:
  assumes "k \<in> set (map fst request)" and "k \<notin> set (required @ optional)"
  shows "\<exists>m. bind_error fname required optional request = Some (TypeError m)"
proof -
  from assms have "k \<in> set (filter (\<lambda>k. k \<notin> set (required @ optional)) (map fst request))"
    by simp
  then have "filter (\<lambda>k. k \<notin> set (required @ optional)) (map fst request) \<noteq> []"
    by (metis empty_iff empty_set)
  then obtain k' ks where
    "filter (\<lambda>k. k \<notin> set (required @ optional)) (map fst request) = k' # ks"
    by (auto simp only: neq_Nil_conv)
  then show ?thesis by (simp add: bind_error_def)
qed

lemma bind_error_accepts:
  assumes "set (map fst request) \<subseteq> set (required @ optional)"
    and "set required \<subseteq> set (map fst request)"
  shows "bind_error fname required optional request = None"
proof -
  from assms(1) have "filter (\<lambda>k. k \<notin> set (required @ optional)) (map fst request) = []"
    by (auto simp: filter_empty_conv)
  moreover from assms(2) have "filter (\<lambda>k. k \<notin> set (map fst request)) required = []"
    by (auto simp: filter_empty_conv)
  ultimately show ?thesis by (simp add: bind_error_def)
qed

lemma download_ignores_size_action:
  assumes "set (map fst request) \<subseteq> {''size'', ''action''}"
    and "''size'' \<in> set (map fst request)"
  shows "getattr_call client (JStr ''download'') oid request w = download client oid x y w"
proof -
  from assms have "bind_error ''download'' [''size''] [''action''] request = None"
    by (intro bind_error_accepts) auto
  then show ?thesis
    by (simp add: getattr_call_def call_download_def download_def)
qed

lemma upload_ignores_size_action:
  assumes "set (map fst request) \<subseteq> {''path'', ''size'', ''action''}"
    and "{''path'', ''size''} \<subseteq> set (map fst request)"
  shows "getattr_call client (JStr ''upload'') oid request w =
         upload client oid (arg request ''path'') x y w"
proof -
  from assms have "bind_error ''upload'' [''path'', ''size''] [''action''] request = None"
    by (intro bind_error_accepts) auto
  then show ?thesis
    by (simp add: getattr_call_def call_upload_def upload_def)
qed

lemma lfs_gcs_download_ignores_fields:
  assumes "''self'' \<notin> set (map fst request)"
  shows "lfs_gcs_getattr_call client (JStr ''download'') oid request w =
         lfs_gcs_download client oid [] w"
  using assms
  by (simp add: lfs_gcs_getattr_call_def lfs_gcs_call_download_def lfs_gcs_download_def)

lemma lfs_gcs_upload_ignores_size_action:
  assumes "set (map fst request) = {''path'', ''size'', ''action''}"
  shows "lfs_gcs_getattr_call client (JStr ''upload'') oid request w =
         lfs_gcs_upload client oid (arg request ''path'') x y w"
proof -
  from assms have "bind_error ''upload'' [''path'', ''size'', ''action''] [] request = None"
    by (intro bind_error_accepts) auto
  then show ?thesis
    by (simp add: lfs_gcs_getattr_call_def lfs_gcs_call_upload_def lfs_gcs_upload_def)
qed

lemma agent_loop_same_call:
  assumes "map_of d ''event'' = Some event" "map_of d' ''event'' = Some event"
    and "event \<noteq> JStr ''terminate''"
    and "map_of d ''oid'' = Some oid" "map_of d' ''oid'' = Some oid"
    and "getattr_call client event oid (leftover d) w =
         getattr_call client event oid (leftover d') w"
  shows "agent_loop client (Decoded (JObj d) # rest) w =
         agent_loop client (Decoded (JObj d') # rest) w"
  using assms(6)
  unfolding agent_loop_request [OF assms(1,3,4)] agent_loop_request [OF assms(2,3,5)]
  by (simp add: handle_request_def)

lemma lfs_gcs_main_loop_same_call:
  assumes "map_of d ''event'' = Some event" "map_of d' ''event'' = Some event"
    and "event \<noteq> JStr ''terminate''"
    and "map_of d ''oid'' = Some oid" "map_of d' ''oid'' = Some oid"
    and "lfs_gcs_getattr_call client event oid (leftover d) w =
         lfs_gcs_getattr_call client event oid (leftover d') w"
  shows "lfs_gcs_main_loop client (Decoded (JObj d) # rest) w =
         lfs_gcs_main_loop client (Decoded (JObj d') # rest) w"
  using assms(6)
  unfolding lfs_gcs_main_loop_request [OF assms(1,3,4)]
    lfs_gcs_main_loop_request [OF assms(2,3,5)]
  by (simp add: lfs_gcs_handle_request_def)

lemma agent_loop_rejected:
  assumes "map_of d ''event'' = Some event" and "event \<noteq> JStr ''terminate''"
    and "map_of d ''oid'' = Some oid"
    and "getattr_call client event oid (leftover d) w = ([], Some e, w)"
  shows "agent_loop client (Decoded (JObj d) # rest) w =
         (complete_error oid e # fst (agent_loop client rest w),
          snd (agent_loop client rest w))"
  using assms(4) unfolding agent_loop_request [OF assms(1-3)]
  by (simp add: handle_request_def split: prod.splits)

lemma lfs_gcs_main_loop_rejected:
  assumes "map_of d ''event'' = Some event" and "event \<noteq> JStr ''terminate''"
    and "map_of d ''oid'' = Some oid"
    and "lfs_gcs_getattr_call client event oid (leftover d) w = ([], Some e, w)"
  shows "lfs_gcs_main_loop client (Decoded (JObj d) # rest) w =
         (complete_error oid e # fst (lfs_gcs_main_loop client rest w),
          snd (lfs_gcs_main_loop client rest w))"
  using assms(4) unfolding lfs_gcs_main_loop_request [OF assms(1-3)]
  by (simp add: lfs_gcs_handle_request_def split: prod.splits)

lemma download_rejects_unknown:
  assumes "k \<in> set (map fst request)" and "k \<notin> {''size'', ''action''}"
  shows "\<exists>m. getattr_call client (JStr ''download'') oid request w = ([], Some (TypeError m), w)"
proof -
  from assms bind_error_unexpected [of k request "[''size'']" "[''action'']" "''download''"]
  obtain m where "bind_error ''download'' [''size''] [''action''] request = Some (TypeError m)"
    by auto
  then have "getattr_call client (JStr ''download'') oid request w = ([], Some (TypeError m), w)"
    by (simp add: getattr_call_def call_download_def)
  then show ?thesis ..
qed

lemma upload_rejects_unknown:
  assumes "k \<in> set (map fst request)" and "k \<notin> {''path'', ''size'', ''action''}"
  shows "\<exists>m. getattr_call client (JStr ''upload'') oid request w = ([], Some (TypeError m), w)"
proof -
  from assms
    bind_error_unexpected [of k request "[''path'', ''size'']" "[''action'']" "''upload''"]
  obtain m where
    "bind_error ''upload'' [''path'', ''size''] [''action''] request = Some (TypeError m)"
    by auto
  then have "getattr_call client (JStr ''upload'') oid request w = ([], Some (TypeError m), w)"
    by (simp add: getattr_call_def call_upload_def)
  then show ?thesis ..
qed

lemma lfs_gcs_upload_rejects_unknown:
  assumes "k \<in> set (map fst request)" and "k \<notin> {''path'', ''size'', ''action''}"
  shows "\<exists>m. lfs_gcs_getattr_call client (JStr ''upload'') oid request w =
           ([], Some (TypeError m), w)"
proof -
  from assms
    bind_error_unexpected [of k request "[''path'', ''size'', ''action'']" "[]" "''upload''"]
  obtain m where
    "bind_error ''upload'' [''path'', ''size'', ''action''] [] request = Some (TypeError m)"
    by auto
  then have "lfs_gcs_getattr_call client (JStr ''upload'') oid request w =
      ([], Some (TypeError m), w)"
    by (simp add: lfs_gcs_getattr_call_def lfs_gcs_call_upload_def)
  then show ?thesis ..
qed

lemma lfs_gcs_download_rejects_self:
  assumes "''self'' \<in> set (map fst request)"
  shows "\<exists>m. lfs_gcs_getattr_call client (JStr ''download'') oid request w =
           ([], Some (TypeError m), w)"
  using assms by (simp add: lfs_gcs_getattr_call_def lfs_gcs_call_download_def)

text \<open>
  C8, as stated, fails: a field that names no parameter is not ignored. The same
  download of \<^verbatim>\<open>abc\<close> by \<^verbatim>\<open>git_lfs_gcs.py\<close>, without and with the extra field
  \<^verbatim>\<open>"extra": 1\<close>: the first prints a progress event and the successful \<^verbatim>\<open>complete\<close>,
  the second only a \<^verbatim>\<open>complete\<close> event with the error of the \<^verbatim>\<open>TypeError\<close>. The same
  for the upload of \<^verbatim>\<open>a.bin\<close>, in both modules: \<^verbatim>\<open>upload\<close> has no \<^verbatim>\<open>**\<close> parameter in
  either.
\<close>

theorem extra_field_changes_events:
  "fst (handle_request example_client (JStr ''download'') (JStr ''abc'')
          [(''size'', JInt 3)] example_world) =
     [progress ''abc'' 3 3, complete_download ''abc'' ''/repo/lfs-download-abc.tmp'']
   \<and> fst (handle_request example_client (JStr ''download'') (JStr ''abc'')
          [(''size'', JInt 3), (''extra'', JInt 1)] example_world) =
     [complete_error (JStr ''abc'')
        (TypeError ''download() got an unexpected keyword argument extra'')]
   \<and> fst (agent_loop example_client [Decoded (JObj upload_abin)] example_world) =
     [progress ''abc'' 3 3, complete_upload ''abc'']
   \<and> fst (agent_loop example_client [Decoded (JObj upload_abin_extra)] example_world) =
     [complete_error (JStr ''abc'')
        (TypeError ''upload() got an unexpected keyword argument extra'')]
   \<and> fst (lfs_gcs_main_loop example_lfs_gcs_client [Decoded (JObj upload_abin)]
        example_world) =
     [progress ''abc'' 3 3, complete_upload ''abc'']
   \<and> fst (lfs_gcs_main_loop example_lfs_gcs_client [Decoded (JObj upload_abin_extra)]
        example_world) =
     [complete_error (JStr ''abc'')
        (TypeError ''upload() got an unexpected keyword argument extra'')]"
  by (simp add: handle_request_def getattr_call_def upload_abin_def upload_abin_extra_def
      lfs_gcs_handle_request_def lfs_gcs_getattr_call_def lfs_gcs_call_upload_def
      lfs_gcs_upload_def call_upload_def upload_def open_rb_def file_open_rb_def
      blob_open_wb_def example_lfs_gcs_client_def
      call_download_def bind_error_def arg_def download_def open_auto_cleanup_def unlink_def
      example_client_def example_world_def
      blob_open_rb_def file_open_wb_def with_sink_def sink_close_def next_fault_def
      transfer_def transfer_loop.simps stream_read_def append_to_def CHUNK_SIZE_def MB_def
      absolute_def join_def file_contents_def Let_def progress_def)

text \<open>
  C8, amended. The fields left after \<^verbatim>\<open>event\<close> and \<^verbatim>\<open>oid\<close> are passed as keyword
  arguments, and each operation takes the fields its signature names, which are those
  of a request of the transfer protocol: \<^verbatim>\<open>size\<close> and \<^verbatim>\<open>action\<close> for \<^verbatim>\<open>download\<close>,
  \<^verbatim>\<open>path\<close>, \<^verbatim>\<open>size\<close> and \<^verbatim>\<open>action\<close> for \<^verbatim>\<open>upload\<close>.

  \<^item> The values of \<^verbatim>\<open>size\<close> and \<^verbatim>\<open>action\<close> are ignored by all four operations:
    \<^verbatim>\<open>download\<close> of \<^verbatim>\<open>git_lfs_gcs.py\<close> (\<^verbatim>\<open>size\<close> present, \<^verbatim>\<open>action\<close> optional),
    \<^verbatim>\<open>upload\<close> of \<^verbatim>\<open>git_lfs_gcs.py\<close> (\<^verbatim>\<open>path\<close> and \<^verbatim>\<open>size\<close> present, \<^verbatim>\<open>action\<close>
    optional), \<^verbatim>\<open>upload\<close> of \<^verbatim>\<open>lfs_gcs.py\<close> (all three present) and \<^verbatim>\<open>download\<close> of
    \<^verbatim>\<open>lfs_gcs.py\<close>. The operation runs as with any other values, and so does the loop:
    two such requests with the same \<^verbatim>\<open>oid\<close> (and \<^verbatim>\<open>path\<close>) give the same run over
    the request and the rest of the input.
  \<^item> \<^verbatim>\<open>download\<close> of \<^verbatim>\<open>lfs_gcs.py\<close>, declared with \<^verbatim>\<open>**_\<close>, ignores every leftover
    field but one called \<^verbatim>\<open>self\<close>, which makes the call raise \<^verbatim>\<open>TypeError\<close>.
  \<^item> Any other leftover field of a download of \<^verbatim>\<open>git_lfs_gcs.py\<close>, or of an upload
    of either module, makes the call raise \<^verbatim>\<open>TypeError\<close> before anything is
    transferred: the loop prints exactly one \<^verbatim>\<open>complete\<close> event carrying the error
    for the request, the world is unchanged, and the loop goes on with the rest of the
    input as if the request had not been there.
\<close>

theorem leftover_fields:
  shows
    "(set (map fst request) \<subseteq> {''size'', ''action''} \<and> ''size'' \<in> set (map fst request) \<longrightarrow>
        getattr_call client (JStr ''download'') oid request w = download client oid x y w)
     \<and> (set (map fst request) \<subseteq> {''path'', ''size'', ''action''}
          \<and> {''path'', ''size''} \<subseteq> set (map fst request) \<longrightarrow>
        getattr_call client (JStr ''upload'') oid request w =
          upload client oid (arg request ''path'') x y w)
     \<and> (''self'' \<notin> set (map fst request) \<longrightarrow>
        lfs_gcs_getattr_call client' (JStr ''download'') oid request w =
          lfs_gcs_download client' oid [] w)
     \<and> (set (map fst request) = {''path'', ''size'', ''action''} \<longrightarrow>
        lfs_gcs_getattr_call client' (JStr ''upload'') oid request w =
          lfs_gcs_upload client' oid (arg request ''path'') x y w)
     \<and> (map_of d ''event'' = Some (JStr ''download'') \<and> map_of d ''oid'' = Some oid
          \<and> map_of d' ''event'' = Some (JStr ''download'') \<and> map_of d' ''oid'' = Some oid \<longrightarrow>
        (set (map fst (leftover d)) \<subseteq> {''size'', ''action''}
           \<and> ''size'' \<in> set (map fst (leftover d))
           \<and> set (map fst (leftover d')) \<subseteq> {''size'', ''action''}
           \<and> ''size'' \<in> set (map fst (leftover d')) \<longrightarrow>
           agent_loop client (Decoded (JObj d) # rest) w =
             agent_loop client (Decoded (JObj d') # rest) w)
        \<and> (''self'' \<notin> set (map fst (leftover d)) \<and> ''self'' \<notin> set (map fst (leftover d')) \<longrightarrow>
           lfs_gcs_main_loop client' (Decoded (JObj d) # rest) w =
             lfs_gcs_main_loop client' (Decoded (JObj d') # rest) w))
     \<and> (map_of d ''event'' = Some (JStr ''upload'') \<and> map_of d ''oid'' = Some oid
          \<and> map_of d' ''event'' = Some (JStr ''upload'') \<and> map_of d' ''oid'' = Some oid
          \<and> arg (leftover d) ''path'' = arg (leftover d') ''path'' \<longrightarrow>
        (set (map fst (leftover d)) \<subseteq> {''path'', ''size'', ''action''}
           \<and> {''path'', ''size''} \<subseteq> set (map fst (leftover d))
           \<and> set (map fst (leftover d')) \<subseteq> {''path'', ''size'', ''action''}
           \<and> {''path'', ''size''} \<subseteq> set (map fst (leftover d')) \<longrightarrow>
           agent_loop client (Decoded (JObj d) # rest) w =
             agent_loop client (Decoded (JObj d') # rest) w)
        \<and> (set (map fst (leftover d)) = {''path'', ''size'', ''action''}
           \<and> set (map fst (leftover d')) = {''path'', ''size'', ''action''} \<longrightarrow>
           lfs_gcs_main_loop client' (Decoded (JObj d) # rest) w =
             lfs_gcs_main_loop client' (Decoded (JObj d') # rest) w))
     \<and> (map_of d ''event'' = Some (JStr ''download'') \<and> map_of d ''oid'' = Some oid \<longrightarrow>
        (k \<in> set (map fst (leftover d)) \<and> k \<notin> {''size'', ''action''} \<longrightarrow>
           (\<exists>m. agent_loop client (Decoded (JObj d) # rest) w =
              (complete_error oid (TypeError m) # fst (agent_loop client rest w),
               snd (agent_loop client rest w))))
        \<and> (''self'' \<in> set (map fst (leftover d)) \<longrightarrow>
           (\<exists>m. lfs_gcs_main_loop client' (Decoded (JObj d) # rest) w =
              (complete_error oid (TypeError m) # fst (lfs_gcs_main_loop client' rest w),
               snd (lfs_gcs_main_loop client' rest w)))))
     \<and> (map_of d ''event'' = Some (JStr ''upload'') \<and> map_of d ''oid'' = Some oid
          \<and> k \<in> set (map fst (leftover d)) \<and> k \<notin> {''path'', ''size'', ''action''} \<longrightarrow>
        (\<exists>m. agent_loop client (Decoded (JObj d) # rest) w =
           (complete_error oid (TypeError m) # fst (agent_loop client rest w),
            snd (agent_loop client rest w)))
        \<and> (\<exists>m. lfs_gcs_main_loop client' (Decoded (JObj d) # rest) w =
           (complete_error oid (TypeError m) # fst (lfs_gcs_main_loop client' rest w),
            snd (lfs_gcs_main_loop client' rest w))))"
proof -
  have nt: "JStr ''download'' \<noteq> JStr ''terminate''" "JStr ''upload'' \<noteq> JStr ''terminate''"
    by simp_all
  have a1: "getattr_call client (JStr ''download'') oid request w = download client oid x y w"
    if "set (map fst request) \<subseteq> {''size'', ''action''} \<and> ''size'' \<in> set (map fst request)"
    using that by (intro download_ignores_size_action) simp_all
  have a2: "getattr_call client (JStr ''upload'') oid request w =
          upload client oid (arg request ''path'') x y w"
    if "set (map fst request) \<subseteq> {''path'', ''size'', ''action''}
          \<and> {''path'', ''size''} \<subseteq> set (map fst request)"
    using that by (intro upload_ignores_size_action) simp_all
  have a3: "lfs_gcs_getattr_call client' (JStr ''download'') oid request w =
          lfs_gcs_download client' oid [] w"
    if "''self'' \<notin> set (map fst request)"
    using that by (rule lfs_gcs_download_ignores_fields)
  have a4: "lfs_gcs_getattr_call client' (JStr ''upload'') oid request w =
          lfs_gcs_upload client' oid (arg request ''path'') x y w"
    if "set (map fst request) = {''path'', ''size'', ''action''}"
    using that by (rule lfs_gcs_upload_ignores_size_action)
  have c1: "agent_loop client (Decoded (JObj d) # rest) w =
             agent_loop client (Decoded (JObj d') # rest) w"
    if "map_of d ''event'' = Some (JStr ''download'') \<and> map_of d ''oid'' = Some oid
          \<and> map_of d' ''event'' = Some (JStr ''download'') \<and> map_of d' ''oid'' = Some oid"
      and "set (map fst (leftover d)) \<subseteq> {''size'', ''action''}
           \<and> ''size'' \<in> set (map fst (leftover d))
           \<and> set (map fst (leftover d')) \<subseteq> {''size'', ''action''}
           \<and> ''size'' \<in> set (map fst (leftover d'))"
  proof -
    from that(2) have "getattr_call client (JStr ''download'') oid (leftover d) w =
        getattr_call client (JStr ''download'') oid (leftover d') w"
      by (simp add: download_ignores_size_action [where x = JNull and y = JNull])
    with that(1) nt(1) show ?thesis by (intro agent_loop_same_call) simp_all
  qed
  have c2: "lfs_gcs_main_loop client' (Decoded (JObj d) # rest) w =
             lfs_gcs_main_loop client' (Decoded (JObj d') # rest) w"
    if "map_of d ''event'' = Some (JStr ''download'') \<and> map_of d ''oid'' = Some oid
          \<and> map_of d' ''event'' = Some (JStr ''download'') \<and> map_of d' ''oid'' = Some oid"
      and "''self'' \<notin> set (map fst (leftover d)) \<and> ''self'' \<notin> set (map fst (leftover d'))"
  proof -
    from that(2) have "lfs_gcs_getattr_call client' (JStr ''download'') oid (leftover d) w =
        lfs_gcs_getattr_call client' (JStr ''download'') oid (leftover d') w"
      by (simp add: lfs_gcs_download_ignores_fields)
    with that(1) nt(1) show ?thesis by (intro lfs_gcs_main_loop_same_call) simp_all
  qed
  have c3: "agent_loop client (Decoded (JObj d) # rest) w =
             agent_loop client (Decoded (JObj d') # rest) w"
    if "map_of d ''event'' = Some (JStr ''upload'') \<and> map_of d ''oid'' = Some oid
          \<and> map_of d' ''event'' = Some (JStr ''upload'') \<and> map_of d' ''oid'' = Some oid
          \<and> arg (leftover d) ''path'' = arg (leftover d') ''path''"
      and "set (map fst (leftover d)) \<subseteq> {''path'', ''size'', ''action''}
           \<and> {''path'', ''size''} \<subseteq> set (map fst (leftover d))
           \<and> set (map fst (leftover d')) \<subseteq> {''path'', ''size'', ''action''}
           \<and> {''path'', ''size''} \<subseteq> set (map fst (leftover d'))"
  proof -
    from that have "getattr_call client (JStr ''upload'') oid (leftover d) w =
        getattr_call client (JStr ''upload'') oid (leftover d') w"
      by (simp add: upload_ignores_size_action [where x = JNull and y = JNull])
    with that(1) nt(2) show ?thesis by (intro agent_loop_same_call) simp_all
  qed
  have c4: "lfs_gcs_main_loop client' (Decoded (JObj d) # rest) w =
             lfs_gcs_main_loop client' (Decoded (JObj d') # rest) w"
    if "map_of d ''event'' = Some (JStr ''upload'') \<and> map_of d ''oid'' = Some oid
          \<and> map_of d' ''event'' = Some (JStr ''upload'') \<and> map_of d' ''oid'' = Some oid
          \<and> arg (leftover d) ''path'' = arg (leftover d') ''path''"
      and "set (map fst (leftover d)) = {''path'', ''size'', ''action''}
           \<and> set (map fst (leftover d')) = {''path'', ''size'', ''action''}"
  proof -
    from that have "lfs_gcs_getattr_call client' (JStr ''upload'') oid (leftover d) w =
        lfs_gcs_getattr_call client' (JStr ''upload'') oid (leftover d') w"
      by (simp add: lfs_gcs_upload_ignores_size_action [where x = JNull and y = JNull])
    with that(1) nt(2) show ?thesis by (intro lfs_gcs_main_loop_same_call) simp_all
  qed
  have b1: "\<exists>m. agent_loop client (Decoded (JObj d) # rest) w =
              (complete_error oid (TypeError m) # fst (agent_loop client rest w),
               snd (agent_loop client rest w))"
    if "map_of d ''event'' = Some (JStr ''download'') \<and> map_of d ''oid'' = Some oid"
      and "k \<in> set (map fst (leftover d)) \<and> k \<notin> {''size'', ''action''}"
  proof -
    from that(2) download_rejects_unknown [of k "leftover d" client oid w]
    obtain m where "getattr_call client (JStr ''download'') oid (leftover d) w =
        ([], Some (TypeError m), w)"
      by auto
    with that(1) nt(1) have "agent_loop client (Decoded (JObj d) # rest) w =
              (complete_error oid (TypeError m) # fst (agent_loop client rest w),
               snd (agent_loop client rest w))"
      by (intro agent_loop_rejected) simp_all
    then show ?thesis ..
  qed
  have b2: "\<exists>m. lfs_gcs_main_loop client' (Decoded (JObj d) # rest) w =
              (complete_error oid (TypeError m) # fst (lfs_gcs_main_loop client' rest w),
               snd (lfs_gcs_main_loop client' rest w))"
    if "map_of d ''event'' = Some (JStr ''download'') \<and> map_of d ''oid'' = Some oid"
      and "''self'' \<in> set (map fst (leftover d))"
  proof -
    from that(2) lfs_gcs_download_rejects_self [of "leftover d" client' oid w]
    obtain m where "lfs_gcs_getattr_call client' (JStr ''download'') oid (leftover d) w =
        ([], Some (TypeError m), w)"
      by auto
    with that(1) nt(1) have "lfs_gcs_main_loop client' (Decoded (JObj d) # rest) w =
              (complete_error oid (TypeError m) # fst (lfs_gcs_main_loop client' rest w),
               snd (lfs_gcs_main_loop client' rest w))"
      by (intro lfs_gcs_main_loop_rejected) simp_all
    then show ?thesis ..
  qed
  have b3: "(\<exists>m. agent_loop client (Decoded (JObj d) # rest) w =
           (complete_error oid (TypeError m) # fst (agent_loop client rest w),
            snd (agent_loop client rest w)))
        \<and> (\<exists>m. lfs_gcs_main_loop client' (Decoded (JObj d) # rest) w =
           (complete_error oid (TypeError m) # fst (lfs_gcs_main_loop client' rest w),
            snd (lfs_gcs_main_loop client' rest w)))"
    if "map_of d ''event'' = Some (JStr ''upload'') \<and> map_of d ''oid'' = Some oid
          \<and> k \<in> set (map fst (leftover d)) \<and> k \<notin> {''path'', ''size'', ''action''}"
  proof -
    from that upload_rejects_unknown [of k "leftover d" client oid w]
    obtain m where "getattr_call client (JStr ''upload'') oid (leftover d) w =
        ([], Some (TypeError m), w)"
      by auto
    with that nt(2) have 1: "agent_loop client (Decoded (JObj d) # rest) w =
              (complete_error oid (TypeError m) # fst (agent_loop client rest w),
               snd (agent_loop client rest w))"
      by (intro agent_loop_rejected) simp_all
    from that lfs_gcs_upload_rejects_unknown [of k "leftover d" client' oid w]
    obtain m' where "lfs_gcs_getattr_call client' (JStr ''upload'') oid (leftover d) w =
        ([], Some (TypeError m'), w)"
      by auto
    with that nt(2) have 2: "lfs_gcs_main_loop client' (Decoded (JObj d) # rest) w =
              (complete_error oid (TypeError m') # fst (lfs_gcs_main_loop client' rest w),
               snd (lfs_gcs_main_loop client' rest w))"
      by (intro lfs_gcs_main_loop_rejected) simp_all
    from 1 2 show ?thesis by blast
  qed
  have t1: "(set (map fst request) \<subseteq> {''size'', ''action''} \<and> ''size'' \<in> set (map fst request) \<longrightarrow>
        getattr_call client (JStr ''download'') oid request w = download client oid x y w)"
    using a1 by blast
  have t2: "(set (map fst request) \<subseteq> {''path'', ''size'', ''action''}
          \<and> {''path'', ''size''} \<subseteq> set (map fst request) \<longrightarrow>
        getattr_call client (JStr ''upload'') oid request w =
          upload client oid (arg request ''path'') x y w)"
    using a2 by blast
  have t3: "(''self'' \<notin> set (map fst request) \<longrightarrow>
        lfs_gcs_getattr_call client' (JStr ''download'') oid request w =
          lfs_gcs_download client' oid [] w)"
    using a3 by blast
  have t4: "(set (map fst request) = {''path'', ''size'', ''action''} \<longrightarrow>
        lfs_gcs_getattr_call client' (JStr ''upload'') oid request w =
          lfs_gcs_upload client' oid (arg request ''path'') x y w)"
    using a4 by blast
  have t5: "(map_of d ''event'' = Some (JStr ''download'') \<and> map_of d ''oid'' = Some oid
          \<and> map_of d' ''event'' = Some (JStr ''download'') \<and> map_of d' ''oid'' = Some oid \<longrightarrow>
        (set (map fst (leftover d)) \<subseteq> {''size'', ''action''}
           \<and> ''size'' \<in> set (map fst (leftover d))
           \<and> set (map fst (leftover d')) \<subseteq> {''size'', ''action''}
           \<and> ''size'' \<in> set (map fst (leftover d')) \<longrightarrow>
           agent_loop client (Decoded (JObj d) # rest) w =
             agent_loop client (Decoded (JObj d') # rest) w)
        \<and> (''self'' \<notin> set (map fst (leftover d)) \<and> ''self'' \<notin> set (map fst (leftover d')) \<longrightarrow>
           lfs_gcs_main_loop client' (Decoded (JObj d) # rest) w =
             lfs_gcs_main_loop client' (Decoded (JObj d') # rest) w))"
    using c1 c2 by blast
  have t6: "(map_of d ''event'' = Some (JStr ''upload'') \<and> map_of d ''oid'' = Some oid
          \<and> map_of d' ''event'' = Some (JStr ''upload'') \<and> map_of d' ''oid'' = Some oid
          \<and> arg (leftover d) ''path'' = arg (leftover d') ''path'' \<longrightarrow>
        (set (map fst (leftover d)) \<subseteq> {''path'', ''size'', ''action''}
           \<and> {''path'', ''size''} \<subseteq> set (map fst (leftover d))
           \<and> set (map fst (leftover d')) \<subseteq> {''path'', ''size'', ''action''}
           \<and> {''path'', ''size''} \<subseteq> set (map fst (leftover d')) \<longrightarrow>
           agent_loop client (Decoded (JObj d) # rest) w =
             agent_loop client (Decoded (JObj d') # rest) w)
        \<and> (set (map fst (leftover d)) = {''path'', ''size'', ''action''}
           \<and> set (map fst (leftover d')) = {''path'', ''size'', ''action''} \<longrightarrow>
           lfs_gcs_main_loop client' (Decoded (JObj d) # rest) w =
             lfs_gcs_main_loop client' (Decoded (JObj d') # rest) w))"
    using c3 c4 by blast
  have t7: "(map_of d ''event'' = Some (JStr ''download'') \<and> map_of d ''oid'' = Some oid \<longrightarrow>
        (k \<in> set (map fst (leftover d)) \<and> k \<notin> {''size'', ''action''} \<longrightarrow>
           (\<exists>m. agent_loop client (Decoded (JObj d) # rest) w =
              (complete_error oid (TypeError m) # fst (agent_loop client rest w),
               snd (agent_loop client rest w))))
        \<and> (''self'' \<in> set (map fst (leftover d)) \<longrightarrow>
           (\<exists>m. lfs_gcs_main_loop client' (Decoded (JObj d) # rest) w =
              (complete_error oid (TypeError m) # fst (lfs_gcs_main_loop client' rest w),
               snd (lfs_gcs_main_loop client' rest w)))))"
    using b1 b2 by blast
  have t8: "(map_of d ''event'' = Some (JStr ''upload'') \<and> map_of d ''oid'' = Some oid
          \<and> k \<in> set (map fst (leftover d)) \<and> k \<notin> {''path'', ''size'', ''action''} \<longrightarrow>
        (\<exists>m. agent_loop client (Decoded (JObj d) # rest) w =
           (complete_error oid (TypeError m) # fst (agent_loop client rest w),
            snd (agent_loop client rest w)))
        \<and> (\<exists>m. lfs_gcs_main_loop client' (Decoded (JObj d) # rest) w =
           (complete_error oid (TypeError m) # fst (lfs_gcs_main_loop client' rest w),
            snd (lfs_gcs_main_loop client' rest w))))"
    using b3 by blast
  show ?thesis
    by (intro conjI; fact)
qed

theorem leftover_fields_witness:
  "getattr_call example_client (JStr ''download'') (JStr ''abc'') (leftover download_abc)
     example_world = download example_client (JStr ''abc'') JNull JNull example_world
   \<and> lfs_gcs_getattr_call example_lfs_gcs_client (JStr ''download'') (JStr ''abc'')
       (leftover download_abc_extra) example_world =
       lfs_gcs_download example_lfs_gcs_client (JStr ''abc'') [] example_world
   \<and> getattr_call example_client (JStr ''upload'') (JStr ''abc'') (leftover upload_abin)
       example_world =
       upload example_client (JStr ''abc'') (JStr ''a.bin'') JNull JNull example_world
   \<and> lfs_gcs_getattr_call example_lfs_gcs_client (JStr ''upload'') (JStr ''abc'')
       (leftover upload_abin) example_world =
       lfs_gcs_upload example_lfs_gcs_client (JStr ''abc'') (JStr ''a.bin'') JNull JNull
         example_world
   \<and> agent_loop example_client [Decoded (JObj download_abc)] example_world =
       agent_loop example_client [Decoded (JObj download_abc_other)] example_world
   \<and> lfs_gcs_main_loop example_lfs_gcs_client [Decoded (JObj download_abc)] example_world =
       lfs_gcs_main_loop example_lfs_gcs_client [Decoded (JObj download_abc_extra)]
         example_world
   \<and> agent_loop example_client [Decoded (JObj upload_abin)] example_world =
       agent_loop example_client [Decoded (JObj upload_abin_other)] example_world
   \<and> lfs_gcs_main_loop example_lfs_gcs_client [Decoded (JObj upload_abin)] example_world =
       lfs_gcs_main_loop example_lfs_gcs_client [Decoded (JObj upload_abin_other)]
         example_world
   \<and> (\<exists>m. agent_loop example_client
          [Decoded (JObj download_abc_extra), Decoded (JObj download_abc)] example_world =
        (complete_error (JStr ''abc'') (TypeError m)
           # fst (agent_loop example_client [Decoded (JObj download_abc)] example_world),
         snd (agent_loop example_client [Decoded (JObj download_abc)] example_world)))
   \<and> (\<exists>m. lfs_gcs_main_loop example_lfs_gcs_client
          [Decoded (JObj download_abc_self), Decoded (JObj download_abc)] example_world =
        (complete_error (JStr ''abc'') (TypeError m)
           # fst (lfs_gcs_main_loop example_lfs_gcs_client [Decoded (JObj download_abc)]
                    example_world),
         snd (lfs_gcs_main_loop example_lfs_gcs_client [Decoded (JObj download_abc)]
                example_world)))
   \<and> (\<exists>m. agent_loop example_client
          [Decoded (JObj upload_abin_extra), Decoded (JObj download_abc)] example_world =
        (complete_error (JStr ''abc'') (TypeError m)
           # fst (agent_loop example_client [Decoded (JObj download_abc)] example_world),
         snd (agent_loop example_client [Decoded (JObj download_abc)] example_world)))
   \<and> (\<exists>m. lfs_gcs_main_loop example_lfs_gcs_client
          [Decoded (JObj upload_abin_extra), Decoded (JObj download_abc)] example_world =
        (complete_error (JStr ''abc'') (TypeError m)
           # fst (lfs_gcs_main_loop example_lfs_gcs_client [Decoded (JObj download_abc)]
                    example_world),
         snd (lfs_gcs_main_loop example_lfs_gcs_client [Decoded (JObj download_abc)]
                example_world)))"
proof -
  note del = agent_loop.simps lfs_gcs_main_loop.simps
  note example_requests =
    download_abc_def download_abc_other_def download_abc_extra_def download_abc_self_def
    upload_abin_def upload_abin_other_def upload_abin_extra_def leftover_def
  from leftover_fields [where request = "leftover download_abc" and client = example_client
      and oid = "JStr ''abc''" and w = example_world and x = JNull and y = JNull
      and client' = example_lfs_gcs_client and d = download_abc and d' = download_abc_other
      and rest = "[]" and k = "''extra''"]
  have 1: "getattr_call example_client (JStr ''download'') (JStr ''abc'') (leftover download_abc)
     example_world = download example_client (JStr ''abc'') JNull JNull example_world"
    and 5: "agent_loop example_client [Decoded (JObj download_abc)] example_world =
       agent_loop example_client [Decoded (JObj download_abc_other)] example_world"
    by (simp_all add: example_requests del: del)
  from leftover_fields [where request = "leftover download_abc_extra"
      and client = example_client
      and oid = "JStr ''abc''" and w = example_world and x = JNull and y = JNull
      and client' = example_lfs_gcs_client and d = download_abc and d' = download_abc_extra
      and rest = "[]" and k = "''extra''"]
  have 2: "lfs_gcs_getattr_call example_lfs_gcs_client (JStr ''download'') (JStr ''abc'')
       (leftover download_abc_extra) example_world =
       lfs_gcs_download example_lfs_gcs_client (JStr ''abc'') [] example_world"
    and 6: "lfs_gcs_main_loop example_lfs_gcs_client [Decoded (JObj download_abc)]
         example_world =
       lfs_gcs_main_loop example_lfs_gcs_client [Decoded (JObj download_abc_extra)]
         example_world"
    by (simp_all add: example_requests del: del)
  from leftover_fields [where request = "leftover upload_abin" and client = example_client
      and oid = "JStr ''abc''" and w = example_world and x = JNull and y = JNull
      and client' = example_lfs_gcs_client and d = upload_abin and d' = upload_abin_other
      and rest = "[]" and k = "''extra''"]
  have 3: "getattr_call example_client (JStr ''upload'') (JStr ''abc'') (leftover upload_abin)
       example_world =
       upload example_client (JStr ''abc'') (JStr ''a.bin'') JNull JNull example_world"
    and 4: "lfs_gcs_getattr_call example_lfs_gcs_client (JStr ''upload'') (JStr ''abc'')
       (leftover upload_abin) example_world =
       lfs_gcs_upload example_lfs_gcs_client (JStr ''abc'') (JStr ''a.bin'') JNull JNull
         example_world"
    and 7: "agent_loop example_client [Decoded (JObj upload_abin)] example_world =
       agent_loop example_client [Decoded (JObj upload_abin_other)] example_world"
    and 8: "lfs_gcs_main_loop example_lfs_gcs_client [Decoded (JObj upload_abin)]
         example_world =
       lfs_gcs_main_loop example_lfs_gcs_client [Decoded (JObj upload_abin_other)]
         example_world"
    by (simp_all add: example_requests arg_def del: del)
  from leftover_fields [where request = "[]" and client = example_client
      and oid = "JStr ''abc''" and w = example_world and x = JNull and y = JNull
      and client' = example_lfs_gcs_client and d = download_abc_extra and d' = download_abc
      and rest = "[Decoded (JObj download_abc)]" and k = "''extra''"]
  have 9: "\<exists>m. agent_loop example_client
          [Decoded (JObj download_abc_extra), Decoded (JObj download_abc)] example_world =
        (complete_error (JStr ''abc'') (TypeError m)
           # fst (agent_loop example_client [Decoded (JObj download_abc)] example_world),
         snd (agent_loop example_client [Decoded (JObj download_abc)] example_world))"
    by (simp add: example_requests del: del)
  from leftover_fields [where request = "[]" and client = example_client
      and oid = "JStr ''abc''" and w = example_world and x = JNull and y = JNull
      and client' = example_lfs_gcs_client and d = download_abc_self and d' = download_abc
      and rest = "[Decoded (JObj download_abc)]" and k = "''self''"]
  have 10: "\<exists>m. lfs_gcs_main_loop example_lfs_gcs_client
          [Decoded (JObj download_abc_self), Decoded (JObj download_abc)] example_world =
        (complete_error (JStr ''abc'') (TypeError m)
           # fst (lfs_gcs_main_loop example_lfs_gcs_client [Decoded (JObj download_abc)]
                    example_world),
         snd (lfs_gcs_main_loop example_lfs_gcs_client [Decoded (JObj download_abc)]
                example_world))"
    by (simp add: example_requests del: del)
  from leftover_fields [where request = "[]" and client = example_client
      and oid = "JStr ''abc''" and w = example_world and x = JNull and y = JNull
      and client' = example_lfs_gcs_client and d = upload_abin_extra and d' = upload_abin
      and rest = "[Decoded (JObj download_abc)]" and k = "''extra''"]
  have 11: "\<exists>m. agent_loop example_client
          [Decoded (JObj upload_abin_extra), Decoded (JObj download_abc)] example_world =
        (complete_error (JStr ''abc'') (TypeError m)
           # fst (agent_loop example_client [Decoded (JObj download_abc)] example_world),
         snd (agent_loop example_client [Decoded (JObj download_abc)] example_world))"
    and 12: "\<exists>m. lfs_gcs_main_loop example_lfs_gcs_client
          [Decoded (JObj upload_abin_extra), Decoded (JObj download_abc)] example_world =
        (complete_error (JStr ''abc'') (TypeError m)
           # fst (lfs_gcs_main_loop example_lfs_gcs_client [Decoded (JObj download_abc)]
                    example_world),
         snd (lfs_gcs_main_loop example_lfs_gcs_client [Decoded (JObj download_abc)]
                example_world))"
    by (simp_all add: example_requests del: del)
  show ?thesis
    by (intro conjI; fact)
qed

end
